theory Spec2Isabelle
  imports Complex_Main
begin

section \<open>Tabular values\<close>

text \<open>
  The program folds batches of pandas data into running aggregates. The pandas values it
  touches are modelled as follows.
  \<^item> A cell is an integer or a missing value (\<open>None\<close>, pandas' NaN). Arithmetic on
    cells is exact: floating-point rounding is outside the model.
  \<^item> A frame is the ordered list of its named columns, each column the list of its cells
    in row order.
  \<^item> A label-indexed series of numbers (what \<open>DataFrame.sum()\<close> returns, one entry per
    column) is a map from labels to cells; the order of its entries is not modelled.
\<close>

type_synonym cell = "int option"

type_synonym frame = "(string \<times> cell list) list"

type_synonym series = "string \<rightharpoonup> cell"

datatype error = IndexError | AttributeError | ValueError | AssertionError
  | TypeError | KeyError

definition columns :: "frame \<Rightarrow> string list" where
  "columns df = map fst df"

text \<open>The values of a column that are not missing, in row order.\<close>

definition present :: "cell list \<Rightarrow> int list" where
  "present xs = map the (filter (\<lambda>c. c \<noteq> None) xs)"

text \<open>\<open>Series.sum()\<close> skips missing values; the sum of no values is 0.\<close>

definition sum_cells :: "cell list \<Rightarrow> int" where
  "sum_cells xs = sum_list (present xs)"

text \<open>\<open>Series.count()\<close> counts the values that are not missing.\<close>

definition count_cells :: "cell list \<Rightarrow> int" where
  "count_cells xs = int (length (present xs))"

text \<open>\<open>DataFrame.sum()\<close> and \<open>DataFrame.count()\<close>: one entry per column, labelled by
  the column's name.\<close>

definition frame_sum :: "frame \<Rightarrow> series" where
  "frame_sum df = map_of (map (\<lambda>(c, xs). (c, Some (sum_cells xs))) df)"

definition frame_count :: "frame \<Rightarrow> series" where
  "frame_count df = map_of (map (\<lambda>(c, xs). (c, Some (count_cells xs))) df)"

text \<open>Addition of two numbers, one of which may be NaN.\<close>

definition add_cell :: "cell \<Rightarrow> cell \<Rightarrow> cell" where
  "add_cell x y = (case (x, y) of (Some a, Some b) \<Rightarrow> Some (a + b) | _ \<Rightarrow> None)"

text \<open>\<open>a + b\<close> on two series aligns them on the union of their labels; a label that
  only one side has gets NaN.\<close>

definition series_add :: "series \<Rightarrow> series \<Rightarrow> series" where
  "series_add a b = (\<lambda>c. case (a c, b c) of
       (None, None) \<Rightarrow> None
     | (Some x, Some y) \<Rightarrow> Some (add_cell x y)
     | _ \<Rightarrow> Some None)"

text \<open>\<open>pd.concat\<close> of two frames that have the same columns appends the rows of the
  second below the rows of the first.\<close>

definition pd_concat :: "frame \<Rightarrow> frame \<Rightarrow> frame" where
  "pd_concat a b = map (\<lambda>((c, xs), (c', ys)). (c, xs @ ys)) (zip a b)"

text \<open>The frame with the given columns and no rows.\<close>

definition empty_frame :: "string list \<Rightarrow> frame" where
  "empty_frame cs = map (\<lambda>c. (c, [])) cs"

definition concat_all :: "string list \<Rightarrow> frame list \<Rightarrow> frame" where
  "concat_all cs bs = foldl pd_concat (empty_frame cs) bs"

section \<open>Sum accumulator\<close>

text \<open>
  \<^verbatim>\<open>
  def _accumulate_sum(accumulator, new):
      return accumulator + new.sum()
  \<close>
  The accumulator starts as the Python integer 0 (\<open>StreamingFrame.sum\<close>) and is a series
  from the first batch on. \<open>+\<close> broadcasts a scalar over a series and aligns two series.
\<close>

datatype total = Scalar int | Ser series

fun py_add :: "total \<Rightarrow> total \<Rightarrow> total" where
  "py_add (Scalar a) (Scalar b) = Scalar (a + b)"
| "py_add (Scalar a) (Ser s) = Ser (\<lambda>c. map_option (add_cell (Some a)) (s c))"
| "py_add (Ser s) (Scalar b) = Ser (\<lambda>c. map_option (\<lambda>x. add_cell x (Some b)) (s c))"
| "py_add (Ser s) (Ser t) = Ser (series_add s t)"

definition accumulate_sum :: "total \<Rightarrow> frame \<Rightarrow> total" where
  "accumulate_sum accumulator new = py_add accumulator (Ser (frame_sum new))"



section \<open>Mean accumulator\<close>

text \<open>
  A quotient of two numbers as pandas computes it: a number divided by zero is infinite,
  zero divided by zero and anything involving NaN is NaN. Quotients are exact rationals.
\<close>

datatype fnum = Fin rat | NaN | PosInf | NegInf

definition div_num :: "cell \<Rightarrow> cell \<Rightarrow> fnum" where
  "div_num x y = (case (x, y) of
       (Some s, Some n) \<Rightarrow>
         (if n = 0 then (if s = 0 then NaN else if 0 < s then PosInf else NegInf)
          else Fin (of_int s / of_int n))
     | _ \<Rightarrow> NaN)"

text \<open>\<open>a / b\<close> on two series, aligned like \<open>a + b\<close>.\<close>

definition series_div :: "series \<Rightarrow> series \<Rightarrow> (string \<rightharpoonup> fnum)" where
  "series_div a b = (\<lambda>c. case (a c, b c) of
       (None, None) \<Rightarrow> None
     | (Some x, Some y) \<Rightarrow> Some (div_num x y)
     | _ \<Rightarrow> Some NaN)"

text \<open>
  The state of the mean accumulator is a frame with one row per column of the stream and
  the two columns \<open>sums\<close> and \<open>counts\<close>: a map from the row label to the pair of cells.
  \<open>acc['sums']\<close> reads a column as a series; \<open>acc['sums'] = v\<close> stores a series into the
  column, reindexed to the rows of \<open>acc\<close> (a row that \<open>v\<close> lacks gets NaN, a label that
  \<open>acc\<close> lacks is dropped).
\<close>

type_synonym macc = "string \<rightharpoonup> (cell \<times> cell)"

definition getitem_sums :: "macc \<Rightarrow> series" where
  "getitem_sums acc = (\<lambda>c. map_option fst (acc c))"

definition getitem_counts :: "macc \<Rightarrow> series" where
  "getitem_counts acc = (\<lambda>c. map_option snd (acc c))"

definition reindex :: "series \<Rightarrow> string \<Rightarrow> cell" where
  "reindex v c = (case v c of None \<Rightarrow> None | Some x \<Rightarrow> x)"

definition setitem_sums :: "macc \<Rightarrow> series \<Rightarrow> macc" where
  "setitem_sums acc v = (\<lambda>c. map_option (\<lambda>(s, n). (reindex v c, n)) (acc c))"

definition setitem_counts :: "macc \<Rightarrow> series \<Rightarrow> macc" where
  "setitem_counts acc v = (\<lambda>c. map_option (\<lambda>(s, n). (s, reindex v c)) (acc c))"

text \<open>
  \<^verbatim>\<open>
  def _accumulate_mean(accumulator, new):
      accumulator = accumulator.copy()
      accumulator['sums'] += new.sum()
      accumulator['counts'] += new.count()
      result = accumulator['sums'] / accumulator['counts']
      return accumulator, result
  \<close>
  In this value model \<open>copy\<close> is the identity; the store model further down keeps the
  object identities apart.
\<close>

definition accumulate_mean :: "macc \<Rightarrow> frame \<Rightarrow> macc \<times> (string \<rightharpoonup> fnum)" where
  "accumulate_mean accumulator new =
     (let accumulator = accumulator;
          accumulator = setitem_sums accumulator
                          (series_add (getitem_sums accumulator) (frame_sum new));
          accumulator = setitem_counts accumulator
                          (series_add (getitem_counts accumulator) (frame_count new));
          result = series_div (getitem_sums accumulator) (getitem_counts accumulator)
      in (accumulator, result))"

text \<open>
  \<open>StreamingDataFrame.mean\<close>:
  \<^verbatim>\<open>start = pd.DataFrame({'sums': 0, 'counts': 0}, index=self.example.columns)\<close>
\<close>

definition mean_start :: "frame \<Rightarrow> macc" where
  "mean_start example =
     (\<lambda>c. if c \<in> set (columns example) then Some (Some 0, Some 0) else None)"

text \<open>\<open>accumulate_partitions(_accumulate_mean, start=start, returns_state=True)\<close>: the
  state after the batches, with the result emitted last (none before the first batch).\<close>

definition run_mean :: "frame \<Rightarrow> frame list \<Rightarrow> macc \<times> (string \<rightharpoonup> fnum) option" where
  "run_mean example bs =
     foldl (\<lambda>(acc, r) b. (let (acc', r') = accumulate_mean acc b in (acc', Some r')))
       (mean_start example, None) bs"

text \<open>The reference: \<open>DataFrame.mean()\<close>, the mean of the values of each column that
  are not missing, NaN for a column without one.\<close>

definition mean_cells :: "cell list \<Rightarrow> fnum" where
  "mean_cells xs =
     (if present xs = [] then NaN
      else Fin (of_int (sum_list (present xs)) / of_int (int (length (present xs)))))"

definition frame_mean :: "frame \<Rightarrow> (string \<rightharpoonup> fnum)" where
  "frame_mean df = map_of (map (\<lambda>(c, xs). (c, mean_cells xs)) df)"

section \<open>Grouped accumulators\<close>

text \<open>
  \<open>new.groupby(grouper)\<close> pairs every row of the batch with its group key. A grouper (a
  column name, a mapping of the index, or a series of keys) is modelled by the keys it
  yields for a batch, one per row. A groupby object is the batch with these keys;
  \<open>g[index]\<close> narrows it to one column and raises \<open>KeyError\<close> for a column the batch
  does not have.
\<close>

type_synonym 'k groupby = "frame \<times> 'k list"

definition getitem_groupby :: "'k groupby \<Rightarrow> string \<Rightarrow> error + 'k groupby" where
  "getitem_groupby g index =
     (case map_of (fst g) index of
        None \<Rightarrow> Inl KeyError
      | Some xs \<Rightarrow> Inr ([(index, xs)], snd g))"

text \<open>The rows of one column of a groupby object, each with its key.\<close>

definition group_rows :: "'k groupby \<Rightarrow> string \<Rightarrow> ('k \<times> cell) list" where
  "group_rows g c = (case map_of (fst g) c of None \<Rightarrow> [] | Some xs \<Rightarrow> zip (snd g) xs)"

text \<open>
  The cells of the rows that carry the key \<open>k\<close>, and the per-group aggregations of one
  column: a group exists when some row carries its key; its sum skips missing values and
  its count counts the values that are not missing.
\<close>

definition cells_of_key :: "'k \<Rightarrow> ('k \<times> cell) list \<Rightarrow> cell list" where
  "cells_of_key k rows = map snd (filter (\<lambda>r. fst r = k) rows)"

definition key_sum :: "('k \<times> cell) list \<Rightarrow> 'k \<rightharpoonup> int" where
  "key_sum rows = (\<lambda>k. if k \<in> fst ` set rows then Some (sum_cells (cells_of_key k rows)) else None)"

definition key_count :: "('k \<times> cell) list \<Rightarrow> 'k \<rightharpoonup> int" where
  "key_count rows =
     (\<lambda>k. if k \<in> fst ` set rows then Some (count_cells (cells_of_key k rows)) else None)"

text \<open>
  A per-group table (\<open>g.sum()\<close>, \<open>g.count()\<close> and the running totals) has one row per
  group key and one column per value column: a map from (column, key) to the number in
  that place. A table narrowed to one column is the series of that column.
\<close>

type_synonym 'k gtable = "(string \<times> 'k) \<rightharpoonup> int"

definition gb_sum :: "'k groupby \<Rightarrow> 'k gtable" where
  "gb_sum g = (\<lambda>(c, k). key_sum (group_rows g c) k)"

definition gb_count :: "'k groupby \<Rightarrow> 'k gtable" where
  "gb_count g = (\<lambda>(c, k). key_count (group_rows g c) k)"

text \<open>\<open>a.add(b, fill_value=0)\<close>: the union of the places of both tables; a place that one
  side lacks counts as 0 there, a place that both lack stays absent.\<close>

definition add_fill :: "'k gtable \<Rightarrow> 'k gtable \<Rightarrow> 'k gtable" where
  "add_fill a b = (\<lambda>l. case (a l, b l) of
       (None, None) \<Rightarrow> None
     | (Some x, None) \<Rightarrow> Some (x + 0)
     | (None, Some y) \<Rightarrow> Some (0 + y)
     | (Some x, Some y) \<Rightarrow> Some (x + y))"

text \<open>\<open>sums / counts\<close> on two tables, aligned on the union of their places.\<close>

definition table_div :: "'k gtable \<Rightarrow> 'k gtable \<Rightarrow> ((string \<times> 'k) \<rightharpoonup> fnum)" where
  "table_div a b = (\<lambda>l. case (a l, b l) of
       (None, None) \<Rightarrow> None
     | (Some x, Some n) \<Rightarrow> Some (div_num (Some x) (Some n))
     | _ \<Rightarrow> Some NaN)"

text \<open>
  What arrives at a grouped accumulator: a pair of the batch and the keys of a streaming
  grouper (the two streams zipped), or the batch alone, grouped by the static grouper
  that the step function was given.

  The first lines of both step functions:
  \<^verbatim>\<open>
      if isinstance(new, tuple):  # zipped
          assert grouper is None
          new, grouper = new
      g = new.groupby(grouper)
      if index is not None:
          g = g[index]
  \<close>
  \<open>groupby(None)\<close> raises \<open>TypeError\<close>.
\<close>

datatype 'k gnew = Zipped frame "'k list" | Plain frame

definition batch_groupby ::
  "'k gnew \<Rightarrow> (frame \<Rightarrow> 'k list) option \<Rightarrow> string option \<Rightarrow> error + 'k groupby" where
  "batch_groupby new grouper index =
     (case (case new of
              Zipped df ks \<Rightarrow> (if grouper \<noteq> None then Inl AssertionError else Inr (df, ks))
            | Plain df \<Rightarrow>
                (case grouper of None \<Rightarrow> Inl TypeError | Some f \<Rightarrow> Inr (df, f df)))
      of Inl e \<Rightarrow> Inl e
       | Inr g \<Rightarrow> (case index of None \<Rightarrow> Inr g | Some i \<Rightarrow> getitem_groupby g i))"

text \<open>
  \<^verbatim>\<open>
  def _accumulate_groupby_sum(accumulator, new, grouper=None, index=None):
      ...
      if isinstance(accumulator, int):
          return g.sum()
      else:
          return accumulator.add(g.sum(), fill_value=0)
  \<close>
  The accumulator is the Python integer it was seeded with or a per-group table.
\<close>

datatype 'k gacc = Seed int | Table "'k gtable"

definition accumulate_groupby_sum ::
  "'k gacc \<Rightarrow> 'k gnew \<Rightarrow> (frame \<Rightarrow> 'k list) option \<Rightarrow> string option \<Rightarrow> error + 'k gacc" where
  "accumulate_groupby_sum accumulator new grouper index =
     (case batch_groupby new grouper index of
        Inl e \<Rightarrow> Inl e
      | Inr g \<Rightarrow>
          (case accumulator of
             Seed i \<Rightarrow> Inr (Table (gb_sum g))
           | Table t \<Rightarrow> Inr (Table (add_fill t (gb_sum g)))))"


text \<open>
  \<^verbatim>\<open>
  def _accumulate_groupby_mean(accumulator, new, grouper=None, index=None):
      ...
      (sums, counts) = accumulator
      if isinstance(sums, int):  # first time
          sums = g.sum()
          counts = g.count()
      else:
          sums = sums.add(g.sum(), fill_value=0)
          counts = counts.add(g.count(), fill_value=0)
      return (sums, counts), sums / counts
  \<close>
  Only \<open>sums\<close> is tested for being an integer; \<open>counts.add\<close> on an integer raises
  \<open>AttributeError\<close>.
\<close>

definition accumulate_groupby_mean ::
  "'k gacc \<times> 'k gacc \<Rightarrow> 'k gnew \<Rightarrow> (frame \<Rightarrow> 'k list) option \<Rightarrow> string option
   \<Rightarrow> error + (('k gacc \<times> 'k gacc) \<times> ((string \<times> 'k) \<rightharpoonup> fnum))" where
  "accumulate_groupby_mean accumulator new grouper index =
     (case batch_groupby new grouper index of
        Inl e \<Rightarrow> Inl e
      | Inr g \<Rightarrow>
          (case accumulator of
             (Seed i, counts) \<Rightarrow>
               Inr ((Table (gb_sum g), Table (gb_count g)), table_div (gb_sum g) (gb_count g))
           | (Table s, Seed j) \<Rightarrow> Inl AttributeError
           | (Table s, Table n) \<Rightarrow>
               (let s' = add_fill s (gb_sum g);
                    n' = add_fill n (gb_count g)
                in Inr ((Table s', Table n'), table_div s' n'))))"




section \<open>Rolling-window accumulator\<close>

text \<open>
  The rolling accumulator works on the rows of a batch in index order. For it a batch is
  one column with its index: the list of its rows, each a pair of the index label and
  the cell (several columns are rolled by pandas one by one, over the same rows). Index
  labels are integers: row labels, or time stamps in ticks for a duration window.

  A window is an integer number of rows or a duration (\<open>isinstance(window, int)\<close> tells
  them apart).
\<close>

type_synonym rows = "(int \<times> cell) list"

datatype window = Rows int | Duration int

text \<open>
  \<open>df.rolling(window, min_periods)\<close> followed by an aggregation. The window of row \<open>i\<close> is
  the last \<open>n\<close> rows up to \<open>i\<close>, or the rows up to \<open>i\<close> whose label is later than the label
  of row \<open>i\<close> minus the duration. The value is NaN when the window has fewer values that
  are not missing than \<open>min_periods\<close>, otherwise the aggregate of those values. Without a
  \<open>min_periods\<close> argument pandas takes the size of an integer window, and 1 for a
  duration. It raises \<open>ValueError\<close> for a negative window or \<open>min_periods\<close>, for
  \<open>min_periods\<close> above an integer window, and for a duration window over an index that
  is not monotonic.
\<close>

definition default_min_periods :: "window \<Rightarrow> int" where
  "default_min_periods w = (case w of Rows n \<Rightarrow> n | Duration d \<Rightarrow> 1)"

definition window_rows :: "int \<Rightarrow> rows \<Rightarrow> nat \<Rightarrow> cell list" where
  "window_rows n df i = map snd (drop (Suc i - nat n) (take (Suc i) df))"

definition window_time :: "int \<Rightarrow> rows \<Rightarrow> nat \<Rightarrow> cell list" where
  "window_time d df i = map snd (filter (\<lambda>r. fst (df ! i) - d < fst r) (take (Suc i) df))"

definition apply_agg :: "int \<Rightarrow> (int list \<Rightarrow> fnum) \<Rightarrow> cell list \<Rightarrow> fnum" where
  "apply_agg mp agg cells = (if int (length (present cells)) < mp then NaN else agg (present cells))"

definition roll_rows ::
  "int \<Rightarrow> int \<Rightarrow> (int list \<Rightarrow> fnum) \<Rightarrow> rows \<Rightarrow> (int \<times> fnum) list" where
  "roll_rows n mp agg df =
     map (\<lambda>i. (fst (df ! i), apply_agg mp agg (window_rows n df i))) [0..<length df]"

definition roll_time ::
  "int \<Rightarrow> int \<Rightarrow> (int list \<Rightarrow> fnum) \<Rightarrow> rows \<Rightarrow> (int \<times> fnum) list" where
  "roll_time d mp agg df =
     map (\<lambda>i. (fst (df ! i), apply_agg mp agg (window_time d df i))) [0..<length df]"

definition pd_rolling ::
  "window \<Rightarrow> int option \<Rightarrow> (int list \<Rightarrow> fnum) \<Rightarrow> rows \<Rightarrow> error + (int \<times> fnum) list" where
  "pd_rolling w min_periods agg df =
     (let mp = (case min_periods of None \<Rightarrow> default_min_periods w | Some m \<Rightarrow> m) in
      if mp < 0 then Inl ValueError
      else case w of
        Rows n \<Rightarrow>
          if n < 0 \<or> n < mp then Inl ValueError else Inr (roll_rows n mp agg df)
      | Duration d \<Rightarrow>
          if \<not> sorted (map fst df) then Inl ValueError else Inr (roll_time d mp agg df))"

text \<open>Two of the aggregations that \<open>op\<close> can name, on the values of one window.\<close>

definition agg_sum :: "int list \<Rightarrow> fnum" where
  "agg_sum vs = Fin (of_int (sum_list vs))"

definition agg_mean :: "int list \<Rightarrow> fnum" where
  "agg_mean vs = (if vs = [] then NaN else Fin (of_int (sum_list vs) / of_int (int (length vs))))"

text \<open>
  \<open>xs.iloc[k:]\<close>: a negative start counts from the end and is clipped at the first row.
  \<open>df.loc[lo:]\<close> on a monotonic index: the rows from the first label that is not below
  \<open>lo\<close>. \<open>index.max()\<close> has no number to give for an index without rows.
\<close>

definition iloc_from :: "int \<Rightarrow> 'a list \<Rightarrow> 'a list" where
  "iloc_from k xs = (if k < 0 then drop (nat (int (length xs) + k)) xs else drop (nat k) xs)"

definition loc_from :: "int \<Rightarrow> (int \<times> 'a) list \<Rightarrow> (int \<times> 'a) list" where
  "loc_from lo df = dropWhile (\<lambda>r. fst r < lo) df"

fun index_max :: "(int \<times> 'a) list \<Rightarrow> int option" where
  "index_max [] = None"
| "index_max (r # rs) = Some (fold max (map fst rs) (fst r))"

text \<open>
  \<^verbatim>\<open>
  def rolling_accumulator(acc, new, window=None, op=None, args=(), kwargs={}):
      if len(acc):
          df = pd.concat([acc, new])
      else:
          df = new
      result = getattr(df.rolling(window), op)(*args, **kwargs)
      if isinstance(window, int):
          new_acc = df.iloc[-window:]
      else:
          new_acc = df.loc[result.index.max() - window:]
      result = result.iloc[len(acc):]
      return new_acc, result
  \<close>
  The start value \<open>()\<close> and a frame without rows both have length 0 and are the empty list
  of rows here. The aggregation named by \<open>op\<close> (with its arguments) is the function it
  computes on the values of a window. No \<open>min_periods\<close> is passed to \<open>df.rolling\<close>. When
  the result has no rows, \<open>result.index.max()\<close> is not a time and the slice by it is not
  modelled: the step stops with \<open>NotModelled\<close>.
\<close>

datatype 'a outcome = Raised error | NotModelled | Returned 'a

definition rolling_accumulator ::
  "rows \<Rightarrow> rows \<Rightarrow> window \<Rightarrow> (int list \<Rightarrow> fnum) \<Rightarrow> (rows \<times> (int \<times> fnum) list) outcome" where
  "rolling_accumulator acc new window op =
     (let df = (if length acc \<noteq> 0 then acc @ new else new) in
      case pd_rolling window None op df of
        Inl e \<Rightarrow> Raised e
      | Inr result \<Rightarrow>
          (case (case window of
                   Rows w \<Rightarrow> Returned (iloc_from (- w) df)
                 | Duration d \<Rightarrow>
                     (case index_max result of
                        None \<Rightarrow> NotModelled
                      | Some m \<Rightarrow> Returned (loc_from (m - d) df)))
           of Raised e \<Rightarrow> Raised e
            | NotModelled \<Rightarrow> NotModelled
            | Returned new_acc \<Rightarrow> Returned (new_acc, iloc_from (int (length acc)) result)))"

text \<open>
  \<open>accumulate_partitions(rolling_accumulator, window=..., op=..., start=(),
  returns_state=True)\<close>: the state after the batches and the result emitted last; a step
  that does not return ends the run.
\<close>

fun run_rolling ::
  "window \<Rightarrow> (int list \<Rightarrow> fnum) \<Rightarrow> rows \<times> (int \<times> fnum) list option \<Rightarrow> rows list
   \<Rightarrow> (rows \<times> (int \<times> fnum) list option) outcome" where
  "run_rolling window op st [] = Returned st"
| "run_rolling window op st (b # bs) =
     (case rolling_accumulator (fst st) b window op of
        Raised e \<Rightarrow> Raised e
      | NotModelled \<Rightarrow> NotModelled
      | Returned (acc', r) \<Rightarrow> run_rolling window op (acc', Some r) bs)"


definition rolling_start :: "rows \<times> (int \<times> fnum) list option" where
  "rolling_start = ([], None)"

section \<open>Reference values for the proofs\<close>

text \<open>The state that holds the sums and counts of the columns of a frame.\<close>

definition macc_of :: "frame \<Rightarrow> macc" where
  "macc_of df = (\<lambda>c. map_option (\<lambda>xs. (Some (sum_cells xs), Some (count_cells xs))) (map_of df c))"




text \<open>The rows that a duration window keeps of a history: those from the first label
  that is not below the last label minus the duration.\<close>

definition keep :: "int \<Rightarrow> rows \<Rightarrow> rows" where
  "keep d h = loc_from (fst (last h) - d) h"



section \<open>The accumulator steps over a store of objects\<close>

text \<open>
  The definitions above compute with values, where nothing can be overwritten. Whether a
  step leaves the state object that it was given alone is a question about objects: here
  the steps run over a store. A reference is the position of an object in the store;
  every pandas operation that builds a new frame, series or tuple allocates at the end of
  the store, and an assignment into an existing frame overwrites the object in its place.
  A step that raises returns nothing.
\<close>

datatype 'k obj =
    TotalObj total
  | MeanObj macc
  | RowsObj rows
  | RolledObj "(int \<times> fnum) list"
  | GroupObj "'k gacc"
  | TupleObj nat nat

type_synonym 'k store = "'k obj list"

definition alloc :: "'k store \<Rightarrow> 'k obj \<Rightarrow> 'k store \<times> nat" where
  "alloc h v = (h @ [v], length h)"

definition lookup :: "'k store \<Rightarrow> nat \<Rightarrow> 'k obj option" where
  "lookup h r = (if r < length h then Some (h ! r) else None)"

text \<open>\<open>accumulator + new.sum()\<close> builds a new object.\<close>

definition accumulate_sum_st :: "'k store \<Rightarrow> nat \<Rightarrow> frame \<Rightarrow> ('k store \<times> nat) option" where
  "accumulate_sum_st h accumulator new =
     (case lookup h accumulator of
        Some (TotalObj t) \<Rightarrow> Some (alloc h (TotalObj (py_add t (Ser (frame_sum new)))))
      | _ \<Rightarrow> None)"

text \<open>
  \<open>frame['sums'] += v\<close> and \<open>frame['counts'] += v\<close> store the new column into the frame
  that the reference names.
\<close>

definition iadd_sums :: "'k store \<Rightarrow> nat \<Rightarrow> series \<Rightarrow> 'k store" where
  "iadd_sums h r v =
     (case lookup h r of
        Some (MeanObj a) \<Rightarrow> h[r := MeanObj (setitem_sums a (series_add (getitem_sums a) v))]
      | _ \<Rightarrow> h)"

definition iadd_counts :: "'k store \<Rightarrow> nat \<Rightarrow> series \<Rightarrow> 'k store" where
  "iadd_counts h r v =
     (case lookup h r of
        Some (MeanObj a) \<Rightarrow> h[r := MeanObj (setitem_counts a (series_add (getitem_counts a) v))]
      | _ \<Rightarrow> h)"

text \<open>
  \<open>_accumulate_mean\<close>, statement by statement: the copy is a new object, and from then
  on the name \<open>accumulator\<close> refers to the copy.
\<close>

definition accumulate_mean_st ::
  "'k store \<Rightarrow> nat \<Rightarrow> frame \<Rightarrow> ('k store \<times> nat \<times> (string \<rightharpoonup> fnum)) option" where
  "accumulate_mean_st h accumulator new =
     (case lookup h accumulator of
        Some (MeanObj a) \<Rightarrow>
          (let (h, accumulator) = alloc h (MeanObj a);
               h = iadd_sums h accumulator (frame_sum new);
               h = iadd_counts h accumulator (frame_count new)
           in case lookup h accumulator of
                Some (MeanObj a') \<Rightarrow>
                  Some (h, accumulator, series_div (getitem_sums a') (getitem_counts a'))
              | _ \<Rightarrow> None)
      | _ \<Rightarrow> None)"

text \<open>
  \<open>_accumulate_groupby_sum\<close>: \<open>g.sum()\<close> is a new table, and \<open>accumulator.add(...)\<close>
  builds another one.
\<close>

definition accumulate_groupby_sum_st ::
  "'k store \<Rightarrow> nat \<Rightarrow> 'k gnew \<Rightarrow> (frame \<Rightarrow> 'k list) option \<Rightarrow> string option
   \<Rightarrow> ('k store \<times> nat) option" where
  "accumulate_groupby_sum_st h accumulator new grouper index =
     (case batch_groupby new grouper index of
        Inl e \<Rightarrow> None
      | Inr g \<Rightarrow>
          (case lookup h accumulator of
             Some (GroupObj (Seed i)) \<Rightarrow> Some (alloc h (GroupObj (Table (gb_sum g))))
           | Some (GroupObj (Table t)) \<Rightarrow>
               (let (h, gsum) = alloc h (GroupObj (Table (gb_sum g)))
                in Some (alloc h (GroupObj (Table (add_fill t (gb_sum g))))))
           | _ \<Rightarrow> None))"

text \<open>
  \<open>_accumulate_groupby_mean\<close>: the state is a tuple of two references; the step builds
  new tables and returns a new tuple of them.
\<close>

definition accumulate_groupby_mean_st ::
  "'k store \<Rightarrow> nat \<Rightarrow> 'k gnew \<Rightarrow> (frame \<Rightarrow> 'k list) option \<Rightarrow> string option
   \<Rightarrow> ('k store \<times> nat \<times> ((string \<times> 'k) \<rightharpoonup> fnum)) option" where
  "accumulate_groupby_mean_st h accumulator new grouper index =
     (case batch_groupby new grouper index of
        Inl e \<Rightarrow> None
      | Inr g \<Rightarrow>
          (case lookup h accumulator of
             Some (TupleObj s n) \<Rightarrow>
               (case (lookup h s, lookup h n) of
                  (Some (GroupObj (Seed i)), Some c) \<Rightarrow>
                    (let (h, s') = alloc h (GroupObj (Table (gb_sum g)));
                         (h, n') = alloc h (GroupObj (Table (gb_count g)));
                         (h, state) = alloc h (TupleObj s' n')
                     in Some (h, state, table_div (gb_sum g) (gb_count g)))
                | (Some (GroupObj (Table ts)), Some (GroupObj (Table tn))) \<Rightarrow>
                    (let (h, gsum) = alloc h (GroupObj (Table (gb_sum g)));
                         (h, s') = alloc h (GroupObj (Table (add_fill ts (gb_sum g))));
                         (h, gcount) = alloc h (GroupObj (Table (gb_count g)));
                         (h, n') = alloc h (GroupObj (Table (add_fill tn (gb_count g))));
                         (h, state) = alloc h (TupleObj s' n')
                     in Some (h, state,
                              table_div (add_fill ts (gb_sum g)) (add_fill tn (gb_count g))))
                | _ \<Rightarrow> None)
           | _ \<Rightarrow> None))"

text \<open>
  \<open>rolling_accumulator\<close>: the batch is an object as well, since \<open>df = new\<close> makes \<open>df\<close>
  another name for it; \<open>pd.concat\<close>, the rolling aggregation and both \<open>iloc\<close>/\<open>loc\<close>
  slices build new objects. The step returns the references of the new backlog and of
  the result.
\<close>

definition rolling_accumulator_st ::
  "'k store \<Rightarrow> nat \<Rightarrow> nat \<Rightarrow> window \<Rightarrow> (int list \<Rightarrow> fnum) \<Rightarrow> ('k store \<times> nat \<times> nat) option" where
  "rolling_accumulator_st h acc new window op =
     (case (lookup h acc, lookup h new) of
        (Some (RowsObj a), Some (RowsObj b)) \<Rightarrow>
          (let (h, df) = (if length a \<noteq> 0 then alloc h (RowsObj (a @ b)) else (h, new)) in
           case lookup h df of
             Some (RowsObj d) \<Rightarrow>
               (case pd_rolling window None op d of
                  Inl e \<Rightarrow> None
                | Inr res \<Rightarrow>
                    (let (h, result) = alloc h (RolledObj res) in
                     case (case window of
                             Rows w \<Rightarrow> Some (iloc_from (- w) d)
                           | Duration t \<Rightarrow>
                               (case index_max res of
                                  None \<Rightarrow> None
                                | Some m \<Rightarrow> Some (loc_from (m - t) d)))
                     of None \<Rightarrow> None
                      | Some kept \<Rightarrow>
                          (let (h, new_acc) = alloc h (RowsObj kept);
                               (h, result) = alloc h (RolledObj (iloc_from (int (length a)) res))
                           in Some (h, new_acc, result))))
           | _ \<Rightarrow> None)
      | _ \<Rightarrow> None)"

section \<open>Facades\<close>

text \<open>
  A streaming dataframe is a stream with a prototype (\<open>example\<close>); only the prototype
  matters here. \<open>columns\<close> is the property \<open>self.example.columns\<close>.
\<close>

record streaming_dataframe =
  example :: frame

definition sdf_columns :: "streaming_dataframe \<Rightarrow> string list" where
  "sdf_columns self = columns (example self)"

text \<open>
  \<^verbatim>\<open>
  def verify(self, x):
      super(StreamingDataFrame, self).verify(x)
      if list(x.columns) != list(self.example.columns):
          raise IndexError(...)
  \<close>
  The check of the base class is not among the sources and is a parameter: it yields the
  error it raises, if any.
\<close>

definition verify ::
  "(frame \<Rightarrow> error option) \<Rightarrow> streaming_dataframe \<Rightarrow> frame \<Rightarrow> error option" where
  "verify super_verify self x =
     (case super_verify x of
        Some e \<Rightarrow> Some e
      | None \<Rightarrow> (if columns x \<noteq> columns (example self) then Some IndexError else None))"

text \<open>
  Modelled from the spec: \<open>emit\<close> of the collaborating stream collection, which is not
  among the sources. A batch that arrives is checked against the prototype; a shape error
  is surfaced at once, and only a batch that passed is delivered to the accumulator,
  whose step is run once on it. The outcome is the accumulator state after the call and
  the error raised, if any.
\<close>

definition emit ::
  "(frame \<Rightarrow> error option) \<Rightarrow> streaming_dataframe \<Rightarrow> ('s \<Rightarrow> frame \<Rightarrow> 's) \<Rightarrow> 's \<Rightarrow> frame
   \<Rightarrow> 's \<times> error option" where
  "emit super_verify self step state x =
     (case verify super_verify self x of
        Some e \<Rightarrow> (state, Some e)
      | None \<Rightarrow> (step state x, None))"

text \<open>
  Attribute access \<open>obj.key\<close>: Python first looks the name up on the object and its class
  (\<open>known\<close>: the methods and attributes it finds there) and calls \<open>__getattr__\<close> only when
  that fails.
\<close>

datatype 'a attribute = Known string | Hooked 'a

definition py_getattr ::
  "string list \<Rightarrow> (string \<Rightarrow> error + 'a) \<Rightarrow> string \<Rightarrow> error + 'a attribute" where
  "py_getattr known hook key =
     (if key \<in> set known then Inr (Known key)
      else (case hook key of Inl e \<Rightarrow> Inl e | Inr v \<Rightarrow> Inr (Hooked v)))"

text \<open>
  \<^verbatim>\<open>
  def __getattr__(self, key):
      if key in self.columns or not len(self.columns):
          return self.map_partitions(getattr, key)
      else:
          raise AttributeError("StreamingDataFrame has no attribute %r" % key)
  \<close>
  \<open>map_partitions\<close> belongs to the base class, which is not among the sources: it is the
  parameter \<open>map_getattr\<close>, the facade that \<open>self.map_partitions(getattr, key)\<close> builds, or
  the error it raises.
\<close>

definition sdf_getattr ::
  "(streaming_dataframe \<Rightarrow> string \<Rightarrow> error + 'f) \<Rightarrow> streaming_dataframe \<Rightarrow> string
   \<Rightarrow> error + 'f" where
  "sdf_getattr map_getattr self key =
     (if key \<in> set (sdf_columns self) \<or> \<not> length (sdf_columns self) \<noteq> 0
      then map_getattr self key
      else Inl AttributeError)"

text \<open>
  \<^verbatim>\<open>
  class Rolling(object):
      def __init__(self, sdf, window, min_periods):
          self.sdf = sdf
          if not isinstance(window, int):
              window = pd.Timedelta(window)
              min_periods = 1
          self.window = window
          self.min_periods = min_periods

      def __getitem__(self, key):
          sdf = self.sdf[key]
          return Rolling(sdf, self.window, self.min_periods)

      def __getattr__(self, key):
          if key in self.sdf.columns or not len(self.sdf.columns):
              return self[key]
          else:
              raise AttributeError(...)

      def _known_aggregation(self, op, *args, **kwargs):
          return self.sdf.accumulate_partitions(rolling_accumulator,
                                                window=self.window, op=op,
                                                args=args, kwargs=kwargs,
                                                start=(), returns_state=True)
  \<close>
  \<open>self.sdf[key]\<close> is \<open>map_partitions(operator.getitem, key)\<close> of the base class: the
  parameter \<open>getitem\<close>.
\<close>

record rolling_handle =
  sdf :: streaming_dataframe
  window :: window
  min_periods :: int

definition Rolling :: "streaming_dataframe \<Rightarrow> window \<Rightarrow> int \<Rightarrow> rolling_handle" where
  "Rolling s w mp =
     \<lparr>sdf = s, window = w, min_periods = (case w of Rows n \<Rightarrow> mp | Duration d \<Rightarrow> 1)\<rparr>"

text \<open>\<open>StreamingFrame.rolling(window, min_periods=1)\<close>\<close>

definition rolling :: "streaming_dataframe \<Rightarrow> window \<Rightarrow> int \<Rightarrow> rolling_handle" where
  "rolling self w mp = Rolling self w mp"

definition Rolling_getitem ::
  "(streaming_dataframe \<Rightarrow> string \<Rightarrow> error + streaming_dataframe) \<Rightarrow> rolling_handle
   \<Rightarrow> string \<Rightarrow> error + rolling_handle" where
  "Rolling_getitem getitem self key =
     (case getitem (sdf self) key of
        Inl e \<Rightarrow> Inl e
      | Inr s \<Rightarrow> Inr (Rolling s (window self) (min_periods self)))"

definition Rolling_getattr ::
  "(streaming_dataframe \<Rightarrow> string \<Rightarrow> error + streaming_dataframe) \<Rightarrow> rolling_handle
   \<Rightarrow> string \<Rightarrow> error + rolling_handle" where
  "Rolling_getattr getitem self key =
     (if key \<in> set (sdf_columns (sdf self)) \<or> \<not> length (sdf_columns (sdf self)) \<noteq> 0
      then Rolling_getitem getitem self key
      else Inl AttributeError)"

text \<open>The step function and the start value that \<open>_known_aggregation\<close> registers.\<close>

definition known_aggregation ::
  "rolling_handle \<Rightarrow> (int list \<Rightarrow> fnum)
   \<Rightarrow> (rows \<Rightarrow> rows \<Rightarrow> (rows \<times> (int \<times> fnum) list) outcome) \<times> rows" where
  "known_aggregation self op =
     (\<lambda>acc new. rolling_accumulator acc new (window self) op, [])"

text \<open>
  \<^verbatim>\<open>
  class StreamingSeriesGroupby(object):
      def __init__(self, root, grouper, index=None):
          self.root = root
          self.grouper = grouper
          self.index = index

      def __getitem__(self, index):
          return StreamingSeriesGroupby(self.root, self.grouper, index)

      def __getattr__(self, key):
          if key in self.root.columns or not len(self.root.columns):
              return self[key]
          else:
              raise AttributeError(...)
  \<close>
  The grouper is another stream (its keys arrive zipped with the batches) or static.
\<close>

datatype 'k grouper = StreamingGrouper | StaticGrouper "frame \<Rightarrow> 'k list"

record 'k groupby_handle =
  root :: streaming_dataframe
  grouper :: "'k grouper"
  index :: "string option"

definition StreamingSeriesGroupby ::
  "streaming_dataframe \<Rightarrow> 'k grouper \<Rightarrow> string option \<Rightarrow> 'k groupby_handle" where
  "StreamingSeriesGroupby r g i = \<lparr>root = r, grouper = g, index = i\<rparr>"

definition groupby_getitem :: "'k groupby_handle \<Rightarrow> string \<Rightarrow> 'k groupby_handle" where
  "groupby_getitem self i = StreamingSeriesGroupby (root self) (grouper self) (Some i)"

definition groupby_getattr :: "'k groupby_handle \<Rightarrow> string \<Rightarrow> error + 'k groupby_handle" where
  "groupby_getattr self key =
     (if key \<in> set (sdf_columns (root self)) \<or> \<not> length (sdf_columns (root self)) \<noteq> 0
      then Inr (groupby_getitem self key)
      else Inl AttributeError)"

section \<open>Properties of the tabular primitives\<close>

lemma present_append: "present (xs @ ys) = present xs @ present ys"
  by (simp add: present_def)

lemma sum_cells_append: "sum_cells (xs @ ys) = sum_cells xs + sum_cells ys"
  by (simp add: sum_cells_def present_append)

lemma count_cells_append: "count_cells (xs @ ys) = count_cells xs + count_cells ys"
  by (simp add: count_cells_def present_append)

lemma columns_pd_concat:
  "columns a = columns b \<Longrightarrow> columns (pd_concat a b) = columns a"
proof (induction a arbitrary: b)
  case Nil
  then show ?case by (simp add: pd_concat_def columns_def)
next
  case (Cons x a)
  then obtain y b' where b: "b = y # b'" by (cases b) (auto simp: columns_def)
  with Cons.prems have "columns a = columns b'" by (simp add: columns_def)
  from Cons.IH [OF this] show ?case
    by (cases x; cases y) (simp add: b pd_concat_def columns_def)
qed



lemma frame_count_not_nan: "frame_count df c \<noteq> Some None"
  by (induction df) (auto simp: frame_count_def)


lemma columns_empty_frame: "columns (empty_frame cs) = cs"
  by (simp add: columns_def empty_frame_def comp_def)


section \<open>Sum accumulator: the running total is the sum of the whole history\<close>






section \<open>Mean accumulator: sums over counts is the mean of the whole history\<close>

lemma frame_sum_lookup: "frame_sum df c = map_option (\<lambda>xs. Some (sum_cells xs)) (map_of df c)"
  by (simp add: frame_sum_def map_of_map)

lemma frame_count_lookup:
  "frame_count df c = map_option (\<lambda>xs. Some (count_cells xs)) (map_of df c)"
  by (simp add: frame_count_def map_of_map)

lemma frame_mean_lookup: "frame_mean df c = map_option mean_cells (map_of df c)"
  by (simp add: frame_mean_def map_of_map)

lemma map_of_pd_concat:
  "columns a = columns b \<Longrightarrow>
   map_of (pd_concat a b) c =
     (case map_of a c of None \<Rightarrow> None | Some xs \<Rightarrow> map_option ((@) xs) (map_of b c))"
proof (induction a arbitrary: b)
  case Nil
  then show ?case by (simp add: pd_concat_def)
next
  case (Cons x a)
  then obtain y b' where b: "b = y # b'" by (cases b) (auto simp: columns_def)
  obtain k xs where x: "x = (k, xs)" by (cases x)
  obtain k' ys where y: "y = (k', ys)" by (cases y)
  from Cons.prems have kk: "k' = k" and cols: "columns a = columns b'"
    by (simp_all add: b x y columns_def)
  have tl: "pd_concat (x # a) b = (k, xs @ ys) # pd_concat a b'"
    by (simp add: b x y pd_concat_def)
  have hd: "map_of b c = (if c = k then Some ys else map_of b' c)"
    by (simp add: b y kk)
  show ?case
    unfolding tl hd using Cons.IH [OF cols] by (simp add: x)
qed

lemma map_of_same_columns:
  "columns a = columns b \<Longrightarrow> (map_of a c = None) = (map_of b c = None)"
  by (simp add: map_of_eq_None_iff columns_def flip: set_map)

lemma mean_cells_div: "div_num (Some (sum_cells xs)) (Some (count_cells xs)) = mean_cells xs"
  by (simp add: div_num_def mean_cells_def sum_cells_def count_cells_def)

lemma mean_start_macc_of: "mean_start ex = macc_of (empty_frame (columns ex))"
proof
  fix c
  have "map_of (empty_frame cs) c = (if c \<in> set cs then Some [] else None)" for cs
    by (induction cs) (auto simp: empty_frame_def)
  then show "mean_start ex c = macc_of (empty_frame (columns ex)) c"
    by (simp add: mean_start_def macc_of_def sum_cells_def count_cells_def present_def)
qed

lemma accumulate_mean_macc_of:
  assumes "columns df = columns b"
  shows "accumulate_mean (macc_of df) b = (macc_of (pd_concat df b), frame_mean (pd_concat df b))"
proof -
  let ?s = "setitem_sums (macc_of df) (series_add (getitem_sums (macc_of df)) (frame_sum b))"
  let ?n = "setitem_counts ?s (series_add (getitem_counts ?s) (frame_count b))"
  have s: "?s c = (case (map_of df c, map_of b c) of
                     (Some xs, Some ys) \<Rightarrow> Some (Some (sum_cells (xs @ ys)), Some (count_cells xs))
                   | _ \<Rightarrow> None)" for c
    using map_of_same_columns [OF assms, of c]
    by (cases "map_of df c"; cases "map_of b c")
       (simp_all add: setitem_sums_def getitem_sums_def macc_of_def series_add_def reindex_def
          frame_sum_lookup map_of_pd_concat [OF assms] add_cell_def sum_cells_append)
  have n: "?n c = macc_of (pd_concat df b) c" for c
    unfolding setitem_counts_def getitem_counts_def s
    using map_of_same_columns [OF assms, of c]
    by (cases "map_of df c"; cases "map_of b c")
       (simp_all add: macc_of_def series_add_def
          reindex_def frame_count_lookup map_of_pd_concat [OF assms] add_cell_def
          count_cells_append sum_cells_append)
  have n': "?n = macc_of (pd_concat df b)" using n by (rule ext)
  have r: "series_div (getitem_sums (macc_of d)) (getitem_counts (macc_of d)) = frame_mean d"
    for d
  proof
    fix c
    show "series_div (getitem_sums (macc_of d)) (getitem_counts (macc_of d)) c = frame_mean d c"
      by (cases "map_of d c")
         (simp_all add: series_div_def getitem_sums_def getitem_counts_def macc_of_def
            frame_mean_lookup mean_cells_div)
  qed
  show ?thesis
    by (simp add: accumulate_mean_def Let_def n' r)
qed

lemma foldl_accumulate_mean:
  "columns a = cs \<Longrightarrow> \<forall>b \<in> set bs. columns b = cs \<Longrightarrow> bs \<noteq> [] \<Longrightarrow>
   foldl (\<lambda>(acc, r) b. (let (acc', r') = accumulate_mean acc b in (acc', Some r')))
     (macc_of a, r0) bs
   = (macc_of (foldl pd_concat a bs), Some (frame_mean (foldl pd_concat a bs)))"
proof (induction bs arbitrary: a r0)
  case Nil
  then show ?case by simp
next
  case (Cons b bs)
  have ab: "columns a = columns b" using Cons.prems by simp
  have cols: "columns (pd_concat a b) = cs"
    using Cons.prems ab by (simp add: columns_pd_concat)
  show ?case
  proof (cases "bs = []")
    case True
    then show ?thesis by (simp add: accumulate_mean_macc_of [OF ab])
  next
    case False
    from Cons.IH [OF cols _ False] Cons.prems(2) show ?thesis
      by (simp add: accumulate_mean_macc_of [OF ab])
  qed
qed



text \<open>Two ways of cutting the same data into batches end with the same mean.\<close>

lemma mean_partition_invariant:
  assumes "bs \<noteq> []" and "\<forall>b \<in> set bs. columns b = columns ex"
    and "bs' \<noteq> []" and "\<forall>b \<in> set bs'. columns b = columns ex"
    and "concat_all (columns ex) bs = concat_all (columns ex) bs'"
  shows "snd (run_mean ex bs) = snd (run_mean ex bs')"
proof -
  have run: "ds \<noteq> [] \<Longrightarrow> \<forall>b \<in> set ds. columns b = columns ex \<Longrightarrow>
      run_mean ex ds = (macc_of (concat_all (columns ex) ds),
                             Some (frame_mean (concat_all (columns ex) ds)))" for ds
    unfolding run_mean_def mean_start_macc_of concat_all_def
    by (rule foldl_accumulate_mean [OF columns_empty_frame])
  show ?thesis
    by (simp add: run [OF assms(1,2)] run [OF assms(3,4)] assms(5))
qed

section \<open>Grouped sum: the running total of a group is the sum of its rows\<close>















section \<open>Grouped mean: every group seen so far is reported\<close>










section \<open>Facades: shape check and attribute lookup\<close>

text \<open>
  Claim C7. When the column list of an arriving batch differs from the column list of the
  prototype (as lists: the order counts), \<open>verify\<close> raises: the error of the base class's
  check if that check fails, and the shape error \<open>IndexError\<close> otherwise. The batch is then
  not delivered: \<open>emit\<close> surfaces the error and leaves the accumulator state as it was.
\<close>

theorem verify_shape_error:
  assumes "columns x \<noteq> columns (example self)"
  shows "verify super_verify self x \<noteq> None
       \<and> (super_verify x = None \<longrightarrow> verify super_verify self x = Some IndexError)
       \<and> emit super_verify self step state x = (state, verify super_verify self x)"
proof -
  have v: "verify super_verify self x
      = (case super_verify x of Some e \<Rightarrow> Some e | None \<Rightarrow> Some IndexError)"
    using assms by (simp add: verify_def)
  then have ne: "verify super_verify self x \<noteq> None"
    by (simp split: option.splits)
  then obtain e where e: "verify super_verify self x = Some e" by blast
  have "emit super_verify self step state x = (state, verify super_verify self x)"
    by (simp add: emit_def e)
  with v ne show ?thesis by simp
qed

theorem verify_shape_error_witness:
  "columns [(''b'', [Some 1]), (''a'', [Some 2])]
     \<noteq> columns (example \<lparr>example = [(''a'', []), (''b'', [])]\<rparr>)
   \<and> verify (\<lambda>x. None) \<lparr>example = [(''a'', []), (''b'', [])]\<rparr>
       [(''b'', [Some 1]), (''a'', [Some 2])] = Some IndexError
   \<and> emit (\<lambda>x. None) \<lparr>example = [(''a'', []), (''b'', [])]\<rparr> accumulate_sum (Scalar 7)
       [(''b'', [Some 1]), (''a'', [Some 2])] = (Scalar 7, Some IndexError)"
proof -
  let ?x = "[(''b'', [Some (1::int)]), (''a'', [Some 2])]"
  let ?s = "\<lparr>example = [(''a'', []), (''b'', [])]\<rparr>"
  have h: "columns ?x \<noteq> columns (example ?s)"
    by (simp add: columns_def)
  from verify_shape_error [OF h, of "\<lambda>x. None" accumulate_sum "Scalar 7"]
  have v: "verify (\<lambda>x. None) ?s ?x = Some IndexError"
    and e: "emit (\<lambda>x. None) ?s accumulate_sum (Scalar 7) ?x
        = (Scalar 7, verify (\<lambda>x. None) ?s ?x)"
    by simp_all
  show ?thesis using h v e by simp
qed

text \<open>
  Claim C9 as stated fails: a grouped handle over a prototype without columns accepts any
  name and narrows to it, without an attribute error.
\<close>

theorem getattr_no_columns_counterexample:
  "''foo'' \<notin> set (sdf_columns \<lparr>example = []\<rparr>) \<and> ''foo'' \<notin> set [''sum'', ''mean'']
   \<and> py_getattr [''sum'', ''mean'']
        (groupby_getattr \<lparr>root = \<lparr>example = []\<rparr>, grouper = StaticGrouper (\<lambda>df. [''k'']),
           index = None\<rparr>) ''foo''
      = Inr (Hooked \<lparr>root = \<lparr>example = []\<rparr>, grouper = StaticGrouper (\<lambda>df. [''k'']),
           index = Some ''foo''\<rparr>)"
  by (simp add: py_getattr_def groupby_getattr_def groupby_getitem_def
      StreamingSeriesGroupby_def sdf_columns_def columns_def)

text \<open>
  Claim C9, amended. Let a name be neither found by the normal lookup nor a column of the
  prototype. If the prototype has at least one column, attribute access on the streaming
  dataframe, on a rolling handle over it and on a grouped handle over it raises
  \<open>AttributeError\<close>. If the prototype has no columns, no facade raises by itself: the
  dataframe hands the name to \<open>map_partitions\<close>, the rolling handle to its column
  selection, and the grouped handle returns the handle narrowed to the name.
\<close>

theorem getattr_unknown_name:
  assumes "key \<notin> set known" and "key \<notin> set (sdf_columns s)"
  shows "(sdf_columns s \<noteq> [] \<longrightarrow>
            py_getattr known (sdf_getattr mg s) key = Inl AttributeError
          \<and> py_getattr known (Rolling_getattr gi (Rolling s w mp)) key = Inl AttributeError
          \<and> py_getattr known (groupby_getattr (StreamingSeriesGroupby s g i)) key
              = Inl AttributeError)
       \<and> (sdf_columns s = [] \<longrightarrow>
            sdf_getattr mg s key = mg s key
          \<and> Rolling_getattr gi (Rolling s w mp) key = Rolling_getitem gi (Rolling s w mp) key
          \<and> groupby_getattr (StreamingSeriesGroupby s g i) key
              = Inr (StreamingSeriesGroupby s g (Some key)))"
  using assms
  by (simp add: py_getattr_def sdf_getattr_def Rolling_getattr_def groupby_getattr_def
      groupby_getitem_def Rolling_def StreamingSeriesGroupby_def)

theorem getattr_unknown_name_witness:
  "py_getattr [''sum''] (sdf_getattr (\<lambda>s k. Inr k) \<lparr>example = [(''x'', [])]\<rparr>) ''y''
     = Inl AttributeError
   \<and> py_getattr [''sum'']
       (Rolling_getattr (\<lambda>s k. Inr s) (Rolling \<lparr>example = [(''x'', [])]\<rparr> (Rows 2) 1)) ''y''
     = Inl AttributeError
   \<and> py_getattr [''sum'']
       (groupby_getattr (StreamingSeriesGroupby \<lparr>example = [(''x'', [])]\<rparr>
          (StaticGrouper (\<lambda>df. [''k''])) None)) ''y''
     = Inl AttributeError
   \<and> sdf_getattr (\<lambda>s k. Inr k) \<lparr>example = []\<rparr> ''y'' = Inr ''y''"
proof -
  let ?s = "\<lparr>example = [(''x'', [])]\<rparr>"
  let ?e = "\<lparr>example = []\<rparr>"
  have k: "''y'' \<notin> set [''sum'']" by simp
  have c: "''y'' \<notin> set (sdf_columns ?s)" by (simp add: sdf_columns_def columns_def)
  have c': "''y'' \<notin> set (sdf_columns ?e)" by (simp add: sdf_columns_def columns_def)
  have ne: "sdf_columns ?s \<noteq> []" by (simp add: sdf_columns_def columns_def)
  have em: "sdf_columns ?e = []" by (simp add: sdf_columns_def columns_def)
  from getattr_unknown_name [OF k c, of "\<lambda>s k. Inr k" "\<lambda>s k. Inr s" "Rows 2" 1
      "StaticGrouper (\<lambda>df. [''k''])" None] ne
  have a: "py_getattr [''sum''] (sdf_getattr (\<lambda>s k. Inr k) ?s) ''y'' = Inl AttributeError"
    and b: "py_getattr [''sum''] (Rolling_getattr (\<lambda>s k. Inr s) (Rolling ?s (Rows 2) 1)) ''y''
        = Inl AttributeError"
    and d: "py_getattr [''sum''] (groupby_getattr (StreamingSeriesGroupby ?s
          (StaticGrouper (\<lambda>df. [''k''])) None)) ''y'' = Inl AttributeError"
    by blast+
  from getattr_unknown_name [OF k c', of "\<lambda>s k. Inr k" "\<lambda>s k. Inr s" "Rows 2" 1
      "StaticGrouper (\<lambda>df. [''k''])" None] em
  have z: "sdf_getattr (\<lambda>s k. Inr k) ?e ''y'' = Inr ''y''"
    by blast
  show ?thesis using a b d z by simp
qed

section \<open>Rolling accumulator: the backlog and the emitted rows\<close>

lemma pd_rolling_Rows:
  "0 \<le> w \<Longrightarrow> pd_rolling (Rows w) None op df = Inr (roll_rows w w op df)"
  by (simp add: pd_rolling_def default_min_periods_def)

lemma pd_rolling_Rows_neg:
  "w < 0 \<Longrightarrow> pd_rolling (Rows w) None op df = Inl ValueError"
  by (simp add: pd_rolling_def default_min_periods_def)

lemma pd_rolling_Duration:
  "sorted (map fst df) \<Longrightarrow> pd_rolling (Duration d) None op df = Inr (roll_time d 1 op df)"
  by (simp add: pd_rolling_def default_min_periods_def)

lemma window_rows_shift:
  "nat w \<le> Suc i \<Longrightarrow> window_rows w (pre @ df) (length pre + i) = window_rows w df i"
  by (simp add: window_rows_def)

lemma window_time_shift:
  assumes "\<forall>r \<in> set pre. fst r \<le> fst (df ! i) - d"
  shows "window_time d (pre @ df) (length pre + i) = window_time d df i"
proof -
  have "filter (\<lambda>r. fst (df ! i) - d < fst r) pre = []"
    using assms by (auto simp: filter_empty_conv)
  then show ?thesis by (simp add: window_time_def)
qed

lemma drop_map_upt:
  "n = k + m \<Longrightarrow> drop k (map f [0..<n]) = map (\<lambda>j. f (k + j)) [0..<m]"
  by (induction m arbitrary: n) (simp_all add: drop_map)

lemma roll_rows_suffix:
  assumes "pre = [] \<or> nat w \<le> length acc"
  shows "drop (length pre + length acc) (roll_rows w mp op (pre @ acc @ b))
       = drop (length acc) (roll_rows w mp op (acc @ b))"
proof (cases "pre = []")
  case True
  then show ?thesis by simp
next
  case False
  with assms have w: "nat w \<le> length acc" by simp
  have "(pre @ acc @ b) ! (length pre + (length acc + j)) = (acc @ b) ! (length acc + j)" for j
    by (simp add: nth_append)
  moreover have "window_rows w (pre @ acc @ b) (length pre + (length acc + j))
      = window_rows w (acc @ b) (length acc + j)" for j
    using w by (intro window_rows_shift) simp
  ultimately show ?thesis
    unfolding roll_rows_def
    by (simp add: drop_map_upt [where k = "length pre + length acc" and m = "length b"]
        drop_map_upt [where k = "length acc" and m = "length b"] add.assoc)
qed

lemma roll_time_suffix:
  assumes "\<forall>r \<in> set pre. \<forall>x \<in> set b. fst r \<le> fst x - d"
  shows "drop (length pre + length acc) (roll_time d mp op (pre @ acc @ b))
       = drop (length acc) (roll_time d mp op (acc @ b))"
proof -
  have nth: "(pre @ acc @ b) ! (length pre + (length acc + j)) = (acc @ b) ! (length acc + j)"
    for j
    by (simp add: nth_append)
  have win: "window_time d (pre @ acc @ b) (length pre + (length acc + j))
      = window_time d (acc @ b) (length acc + j)" if "j < length b" for j
  proof (rule window_time_shift)
    from that have "(acc @ b) ! (length acc + j) \<in> set b" by simp
    with assms show "\<forall>r\<in>set pre. fst r \<le> fst ((acc @ b) ! (length acc + j)) - d"
      by blast
  qed
  show ?thesis
    unfolding roll_time_def
    by (simp add: drop_map_upt [where k = "length pre + length acc" and m = "length b"]
        drop_map_upt [where k = "length acc" and m = "length b"] add.assoc nth win)
qed

lemma iloc_from_last:
  "0 < w \<Longrightarrow> iloc_from (- w) xs = drop (length xs - nat w) xs"
  by (simp add: iloc_from_def nat_diff_distrib')

lemma iloc_from_zero: "iloc_from 0 xs = xs"
  by (simp add: iloc_from_def)

lemma iloc_from_length: "iloc_from (int n) xs = drop n xs"
  by (simp add: iloc_from_def)

lemma iloc_from_idem:
  assumes "0 \<le> w"
  shows "iloc_from (- w) (iloc_from (- w) h @ b) = iloc_from (- w) (h @ b)"
proof (cases "w = 0")
  case True
  then show ?thesis by (simp add: iloc_from_zero)
next
  case False
  with assms have w: "0 < w" by simp
  show ?thesis
    unfolding iloc_from_last [OF w]
    by (cases "length h \<le> nat w") (auto simp: add.commute)
qed

lemma iloc_from_suffix:
  assumes "0 \<le> w"
  shows "\<exists>pre. h = pre @ iloc_from (- w) h \<and> (pre = [] \<or> nat w \<le> length (iloc_from (- w) h))"
proof (cases "w = 0")
  case True
  then show ?thesis by (simp add: iloc_from_zero)
next
  case False
  with assms have w: "0 < w" by simp
  have "h = take (length h - nat w) h @ iloc_from (- w) h"
    by (simp add: iloc_from_last [OF w])
  moreover have "take (length h - nat w) h = [] \<or> nat w \<le> length (iloc_from (- w) h)"
    by (simp add: iloc_from_last [OF w]) linarith
  ultimately show ?thesis by blast
qed

lemma rolling_accumulator_Rows:
  assumes "0 \<le> w"
  shows "rolling_accumulator (iloc_from (- w) h) b (Rows w) op
       = Returned (iloc_from (- w) (h @ b), drop (length h) (roll_rows w w op (h @ b)))"
proof -
  let ?acc = "iloc_from (- w) h"
  from iloc_from_suffix [OF assms] obtain pre where
    h: "h = pre @ ?acc" and pre: "pre = [] \<or> nat w \<le> length ?acc"
    by blast
  have df: "(if length ?acc \<noteq> 0 then ?acc @ b else b) = ?acc @ b" by simp
  have "drop (length h) (roll_rows w w op (h @ b))
      = drop (length pre + length ?acc) (roll_rows w w op (pre @ ?acc @ b))"
    using h by (metis append.assoc length_append)
  also have "\<dots> = drop (length ?acc) (roll_rows w w op (?acc @ b))"
    by (rule roll_rows_suffix [OF pre])
  finally have r: "drop (length ?acc) (roll_rows w w op (?acc @ b))
      = drop (length h) (roll_rows w w op (h @ b))" ..
  show ?thesis
    unfolding rolling_accumulator_def df Let_def
    by (simp add: pd_rolling_Rows [OF assms] iloc_from_idem [OF assms] iloc_from_length r)
qed

lemma run_rolling_Rows:
  assumes "0 \<le> w"
  shows "run_rolling (Rows w) op (iloc_from (- w) h, r) bs
       = Returned (iloc_from (- w) (h @ concat bs),
           if bs = [] then r
           else Some (drop (length (h @ concat (butlast bs)))
                        (roll_rows w w op (h @ concat bs))))"
proof (induction bs arbitrary: h r)
  case Nil
  then show ?case by simp
next
  case (Cons b bs)
  show ?case
    using Cons.IH [of "h @ b"]
    by (simp add: rolling_accumulator_Rows [OF assms])
qed


lemma fold_max_sorted:
  "sorted (a # xs) \<Longrightarrow> fold max xs a = last (a # xs)" for a :: int
proof (induction xs arbitrary: a)
  case Nil
  then show ?case by simp
next
  case (Cons x xs)
  then have "max a x = x" by simp
  with Cons.IH [of x] Cons.prems show ?case by simp
qed

lemma index_max_sorted:
  "sorted (map fst df) \<Longrightarrow> df \<noteq> [] \<Longrightarrow> index_max df = Some (fst (last df))"
proof (cases df)
  case Nil
  assume "df \<noteq> []"
  with Nil show ?thesis by simp
next
  case (Cons r rs)
  assume "sorted (map fst df)"
  with Cons have "fold max (map fst rs) (fst r) = last (fst r # map fst rs)"
    by (intro fold_max_sorted) simp
  then show ?thesis by (simp add: Cons last_map)
qed

lemma index_roll_time: "map fst (roll_time d mp op df) = map fst df"
  by (rule nth_equalityI) (simp_all add: roll_time_def)

lemma index_max_labels: "map fst a = map fst b \<Longrightarrow> index_max a = index_max b"
  by (cases a; cases b) auto

lemma index_max_roll_time: "index_max (roll_time d mp op df) = index_max df"
  by (rule index_max_labels) (rule index_roll_time)

lemma keep_last:
  assumes "h \<noteq> []" and "0 \<le> d"
  shows "keep d h \<noteq> []" and "last (keep d h) = last h"
proof -
  have "\<not> fst (last h) < fst (last h) - d" using assms(2) by simp
  then have "dropWhile (\<lambda>r. fst r < fst (last h) - d) h \<noteq> []"
    using assms(1) by (metis (mono_tags, lifting) dropWhile_eq_Nil_conv last_in_set)
  then show "keep d h \<noteq> []" by (simp add: keep_def loc_from_def)
  then show "last (keep d h) = last h"
    unfolding keep_def loc_from_def
    by (metis last_appendR takeWhile_dropWhile_id)
qed

lemma rolling_accumulator_Duration:
  assumes s: "sorted (map fst (h @ b))" and h: "h \<noteq> []" and d: "0 \<le> d"
  shows "rolling_accumulator (keep d h) b (Duration d) op
       = Returned (keep d (h @ b), drop (length h) (roll_time d 1 op (h @ b)))"
proof -
  let ?lo = "fst (last h) - d"
  let ?acc = "keep d h"
  let ?pre = "takeWhile (\<lambda>r. fst r < ?lo) h"
  have split: "h = ?pre @ ?acc"
    by (simp add: keep_def loc_from_def)
  have acc: "?acc \<noteq> []" and lacc: "last ?acc = last h"
    using keep_last [OF h d] by simp_all
  have pre_lt: "fst r < ?lo" if "r \<in> set ?pre" for r
    using that by (auto dest: set_takeWhileD)
  have sorted_df: "sorted (map fst (?acc @ b))"
    using s by (subst (asm) split) (simp add: sorted_append)
  have df: "(if length ?acc \<noteq> 0 then ?acc @ b else b) = ?acc @ b" by simp
  have last_df: "last (?acc @ b) = last (h @ b)"
    using acc h lacc by (cases "b = []") simp_all
  have last_ge: "fst (last h) \<le> fst x" if "x \<in> set b" for x
    using s h that by (auto simp: sorted_append)
  have lo_mono: "?lo \<le> fst (last (h @ b)) - d"
    using last_ge [of "last b"] by (cases "b = []") simp_all
  have m: "index_max (roll_time d 1 op (?acc @ b)) = Some (fst (last (h @ b)))"
    using index_max_sorted [OF sorted_df] acc by (simp add: index_max_roll_time last_df)
  have "keep d (h @ b) = loc_from (fst (last (h @ b)) - d) (?pre @ ?acc @ b)"
    using split by (metis append.assoc keep_def)
  also have "\<dots> = loc_from (fst (last (h @ b)) - d) (?acc @ b)"
    unfolding loc_from_def
    using pre_lt lo_mono by (intro dropWhile_append2) fastforce
  finally have new_acc: "loc_from (fst (last (h @ b)) - d) (?acc @ b) = keep d (h @ b)" ..
  have "drop (length h) (roll_time d 1 op (h @ b))
      = drop (length ?pre + length ?acc) (roll_time d 1 op (?pre @ ?acc @ b))"
    using split by (metis append.assoc length_append)
  also have "\<dots> = drop (length ?acc) (roll_time d 1 op (?acc @ b))"
  proof (rule roll_time_suffix, intro ballI)
    fix r x assume "r \<in> set ?pre" and "x \<in> set b"
    with pre_lt [of r] last_ge [of x] show "fst r \<le> fst x - d" by simp
  qed
  finally have r: "drop (length ?acc) (roll_time d 1 op (?acc @ b))
      = drop (length h) (roll_time d 1 op (h @ b))" ..
  show ?thesis
    unfolding rolling_accumulator_def df Let_def
    by (simp add: pd_rolling_Duration [OF sorted_df] m new_acc iloc_from_length r)
qed

lemma run_rolling_Duration:
  assumes "0 \<le> d"
  shows "sorted (map fst (h @ concat bs)) \<Longrightarrow> h \<noteq> [] \<Longrightarrow>
     run_rolling (Duration d) op (keep d h, r) bs
       = Returned (keep d (h @ concat bs),
           if bs = [] then r
           else Some (drop (length (h @ concat (butlast bs)))
                        (roll_time d 1 op (h @ concat bs))))"
proof (induction bs arbitrary: h r)
  case Nil
  then show ?case by simp
next
  case (Cons b bs)
  from Cons.prems(1) have s: "sorted (map fst (h @ b))"
    by (simp add: sorted_append)
  from Cons.prems(1) have s': "sorted (map fst ((h @ b) @ concat bs))" by simp
  show ?case
    using Cons.IH [OF s', of "Some (drop (length h) (roll_time d 1 op (h @ b)))"] Cons.prems(2)
    by (simp add: rolling_accumulator_Duration [OF s Cons.prems(2) assms])
qed

lemma rolling_accumulator_Duration_first:
  assumes "sorted (map fst b)" and "b \<noteq> []"
  shows "rolling_accumulator [] b (Duration d) op = Returned (keep d b, roll_time d 1 op b)"
proof -
  have m: "index_max (roll_time d 1 op b) = Some (fst (last b))"
    using index_max_sorted [OF assms] by (simp add: index_max_roll_time)
  show ?thesis
    unfolding rolling_accumulator_def Let_def
    by (simp add: pd_rolling_Duration [OF assms(1)] m keep_def iloc_from_def)
qed

lemma run_rolling_Rows_start:
  assumes "0 \<le> w"
  shows "run_rolling (Rows w) op rolling_start bs
       = Returned (iloc_from (- w) (concat bs),
           if bs = [] then None
           else Some (drop (length (concat (butlast bs))) (roll_rows w w op (concat bs))))"
proof -
  have e: "iloc_from (- w) ([] :: rows) = []" by (simp add: iloc_from_def)
  show ?thesis
    using run_rolling_Rows [OF assms, of op "[]" None bs]
    unfolding e by (simp add: rolling_start_def)
qed

lemma run_rolling_Duration_start:
  assumes "0 \<le> d" and "bs \<noteq> []" and "hd bs \<noteq> []" and "sorted (map fst (concat bs))"
  shows "run_rolling (Duration d) op rolling_start bs
       = Returned (keep d (concat bs),
           Some (drop (length (concat (butlast bs))) (roll_time d 1 op (concat bs))))"
proof -
  from assms(2) obtain b bs' where bs: "bs = b # bs'" by (cases bs) auto
  with assms(3) have b: "b \<noteq> []" by simp
  from assms(4) have sb: "sorted (map fst b)" and s: "sorted (map fst (b @ concat bs'))"
    by (simp_all add: bs sorted_append)
  show ?thesis
    using run_rolling_Duration [OF assms(1) s b, of op "Some (roll_time d 1 op b)"]
    by (simp add: bs rolling_start_def rolling_accumulator_Duration_first [OF sb b])
qed






section \<open>Rolling accumulator: the emitted rows against the whole history\<close>

text \<open>
  With the \<open>min_periods\<close> that pandas takes by itself, the rows emitted for the last batch
  are the rows that the rolling aggregation over the whole history has for that batch.
\<close>

lemma rolling_rows_refines:
  assumes "pd_rolling (Rows w) None op (concat bs) = Inr ref" and "bs \<noteq> []"
  shows "\<exists>acc. run_rolling (Rows w) op rolling_start bs
           = Returned (acc, Some (drop (length (concat (butlast bs))) ref))"
proof -
  have w: "0 \<le> w"
  proof (rule ccontr)
    assume "\<not> 0 \<le> w"
    then have "w < 0" by simp
    from pd_rolling_Rows_neg [OF this] assms(1) show False by simp
  qed
  from assms(1) have "ref = roll_rows w w op (concat bs)"
    by (simp add: pd_rolling_Rows [OF w])
  with run_rolling_Rows_start [OF w, of op bs] assms(2) show ?thesis by simp
qed

lemma rolling_duration_refines:
  assumes "pd_rolling (Duration d) None op (concat bs) = Inr ref"
    and "0 \<le> d" and "bs \<noteq> []" and "hd bs \<noteq> []"
  shows "\<exists>acc. run_rolling (Duration d) op rolling_start bs
           = Returned (acc, Some (drop (length (concat (butlast bs))) ref))"
proof -
  have s: "sorted (map fst (concat bs))"
    using assms(1) by (simp add: pd_rolling_def default_min_periods_def split: if_splits)
  from assms(1) have "ref = roll_time d 1 op (concat bs)"
    by (simp add: pd_rolling_Duration [OF s])
  with run_rolling_Duration_start [OF assms(2,3,4) s, of op] show ?thesis by simp
qed

text \<open>A window of 0 rows: \<open>df.iloc[-0:]\<close> is the whole frame, so nothing is ever dropped
  from the backlog.\<close>

lemma rolling_window_zero_keeps_all:
  "\<exists>r. run_rolling (Rows 0) op rolling_start bs = Returned (concat bs, r)"
  using run_rolling_Rows_start [of 0 op bs] by (simp add: iloc_from_zero)

text \<open>
  Claim C1 fails on the code where the configured \<open>min_periods\<close> is not the one pandas
  takes by itself: \<open>rolling(window, min_periods=1)\<close> stores \<open>min_periods\<close> in the handle,
  but \<open>_known_aggregation\<close> does not pass it on and \<open>rolling_accumulator\<close> calls
  \<open>df.rolling(window)\<close> without it. With a window of 2 rows, the configured
  \<open>min_periods\<close> of 1 and the first batch of one row with the value 1, the step emits NaN
  for that row, while the reference rolling sum with \<open>min_periods\<close> 1 over the history
  has 1 there.
\<close>

theorem rolling_min_periods_not_forwarded:
  "min_periods (rolling \<lparr>example = [(''x'', [])]\<rparr> (Rows 2) 1) = 1
   \<and> fst (known_aggregation (rolling \<lparr>example = [(''x'', [])]\<rparr> (Rows 2) 1) agg_sum)
        (snd (known_aggregation (rolling \<lparr>example = [(''x'', [])]\<rparr> (Rows 2) 1) agg_sum))
        [(0, Some 1)]
      = Returned ([(0, Some 1)], [(0, NaN)])
   \<and> pd_rolling (Rows 2) (Some 1) agg_sum [(0, Some 1)] = Inr [(0, Fin 1)]"
  by (simp add: rolling_def Rolling_def known_aggregation_def rolling_accumulator_def
      pd_rolling_def default_min_periods_def roll_rows_def window_rows_def apply_agg_def
      present_def agg_sum_def iloc_from_def)




section \<open>A batch without rows\<close>
















section \<open>The steps never write into the state object they were given\<close>

lemma lookup_append_old: "r < length h \<Longrightarrow> lookup (h @ t) r = lookup h r"
  by (simp add: lookup_def nth_append)

lemma lookup_append_new: "lookup (h @ [v]) (length h) = Some v"
  by (simp add: lookup_def)

lemma lookup_bound: "lookup h r = Some v \<Longrightarrow> r < length h"
  by (simp add: lookup_def split: if_splits)

lemma lookup_take:
  "take (length h) h' = h \<Longrightarrow> r < length h \<Longrightarrow> lookup h' r = lookup h r"
  by (metis append_take_drop_id lookup_append_old)

text \<open>The steps over the store compute what the steps over values compute.\<close>

lemma accumulate_sum_st_value:
  assumes "lookup h acc = Some (TotalObj t)"
  shows "accumulate_sum_st h acc new = Some (h @ [TotalObj (accumulate_sum t new)], length h)"
  by (simp add: accumulate_sum_st_def assms alloc_def accumulate_sum_def)

lemma accumulate_mean_st_value:
  assumes "lookup h acc = Some (MeanObj a)"
  shows "accumulate_mean_st h acc new
       = Some (h @ [MeanObj (fst (accumulate_mean a new))], length h,
               snd (accumulate_mean a new))"
  unfolding accumulate_mean_st_def assms
  by (simp add: alloc_def iadd_sums_def iadd_counts_def lookup_def accumulate_mean_def Let_def)

lemma accumulate_groupby_sum_st_value:
  assumes "lookup h acc = Some (GroupObj a)"
    and "accumulate_groupby_sum a new gr ix = Inr a'"
  shows "\<exists>h' acc'. accumulate_groupby_sum_st h acc new gr ix = Some (h', acc')
           \<and> lookup h' acc' = Some (GroupObj a')
           \<and> take (length h) h' = h \<and> length h \<le> acc'"
proof -
  from assms(2) obtain g where g: "batch_groupby new gr ix = Inr g"
    by (auto simp: accumulate_groupby_sum_def split: sum.splits)
  from assms(1) have b: "acc < length h" by (rule lookup_bound)
  show ?thesis
  proof (cases a)
    case (Seed i)
    with assms g b show ?thesis
      by (simp add: accumulate_groupby_sum_st_def accumulate_groupby_sum_def alloc_def
          lookup_append_old lookup_append_new)
  next
    case (Table t)
    with assms g b show ?thesis
      by (simp add: accumulate_groupby_sum_st_def accumulate_groupby_sum_def alloc_def
          lookup_append_old lookup_def nth_append)
  qed
qed

lemma accumulate_groupby_mean_st_value:
  assumes "lookup h acc = Some (TupleObj s n)"
    and "lookup h s = Some (GroupObj a)" and "lookup h n = Some (GroupObj c)"
    and "accumulate_groupby_mean (a, c) new gr ix = Inr ((a', c'), r)"
  shows "\<exists>h' acc' s' n'. accumulate_groupby_mean_st h acc new gr ix = Some (h', acc', r)
           \<and> lookup h' acc' = Some (TupleObj s' n')
           \<and> lookup h' s' = Some (GroupObj a') \<and> lookup h' n' = Some (GroupObj c')
           \<and> take (length h) h' = h
           \<and> length h \<le> acc' \<and> length h \<le> s' \<and> length h \<le> n'"
proof -
  from assms(4) obtain g where g: "batch_groupby new gr ix = Inr g"
    by (auto simp: accumulate_groupby_mean_def split: sum.splits)
  show ?thesis
  proof (cases a)
    case (Seed i)
    with assms g show ?thesis
      by (simp add: accumulate_groupby_mean_st_def accumulate_groupby_mean_def alloc_def
          lookup_def nth_append)
  next
    case (Table ts)
    note a = this
    show ?thesis
    proof (cases c)
      case (Seed j)
      with a assms g show ?thesis
        by (simp add: accumulate_groupby_mean_def)
    next
      case (Table tn)
      with a assms g show ?thesis
        by (simp add: accumulate_groupby_mean_st_def accumulate_groupby_mean_def alloc_def
            lookup_def nth_append Let_def)
    qed
  qed
qed

lemma rolling_accumulator_st_value:
  assumes "lookup h acc = Some (RowsObj a)" and "lookup h new = Some (RowsObj b)"
    and "rolling_accumulator a b w op = Returned (kept, r)"
  shows "\<exists>h' acc' res'. rolling_accumulator_st h acc new w op = Some (h', acc', res')
           \<and> lookup h' acc' = Some (RowsObj kept) \<and> lookup h' res' = Some (RolledObj r)
           \<and> take (length h) h' = h \<and> length h \<le> acc' \<and> length h \<le> res'"
proof -
  let ?d = "if length a \<noteq> 0 then a @ b else b"
  from assms(3) obtain res where res: "pd_rolling w None op ?d = Inr res"
    by (auto simp: rolling_accumulator_def Let_def split: sum.splits)
  from assms(3) res have k: "(case w of
        Rows n \<Rightarrow> Some (iloc_from (- n) ?d)
      | Duration t \<Rightarrow>
          (case index_max res of None \<Rightarrow> None | Some m \<Rightarrow> Some (loc_from (m - t) ?d)))
      = Some kept"
    and r: "r = iloc_from (int (length a)) res"
    by (auto simp: rolling_accumulator_def Let_def split: window.splits option.splits)
  from assms(2) have nb: "new < length h" by (rule lookup_bound)
  show ?thesis
  proof (cases "length a \<noteq> 0")
    case True
    then have d: "?d = a @ b" by simp
    note res' = res [unfolded d] and k' = k [unfolded d]
    show ?thesis
      using True assms(1,2)
      by (simp add: rolling_accumulator_st_def alloc_def lookup_append_new res' k' r
          lookup_def nth_append)
  next
    case False
    then have d: "?d = b" by simp
    note res' = res [unfolded d] and k' = k [unfolded d]
    show ?thesis
      using False assms(1,2)
      by (simp add: rolling_accumulator_st_def alloc_def res' k' r lookup_def nth_append)
  qed
qed

text \<open>Every step only appends to the store, apart from the writes of the mean step into
  the copy it made.\<close>

lemma take_iadd_sums: "k \<le> r \<Longrightarrow> take k (iadd_sums h r v) = take k h"
  by (simp add: iadd_sums_def split: option.splits obj.splits)

lemma take_iadd_counts: "k \<le> r \<Longrightarrow> take k (iadd_counts h r v) = take k h"
  by (simp add: iadd_counts_def split: option.splits obj.splits)

lemma length_iadd_sums: "length (iadd_sums h r v) = length h"
  by (simp add: iadd_sums_def split: option.splits obj.splits)

lemma length_iadd_counts: "length (iadd_counts h r v) = length h"
  by (simp add: iadd_counts_def split: option.splits obj.splits)

lemma accumulate_sum_st_frame:
  assumes "accumulate_sum_st h acc new = Some (h', acc')"
  shows "take (length h) h' = h \<and> length h \<le> acc' \<and> acc' < length h'"
  using assms
  by (auto simp: accumulate_sum_st_def alloc_def split: option.splits obj.splits)

lemma accumulate_mean_st_frame:
  assumes "accumulate_mean_st h acc new = Some (h', acc', r)"
  shows "take (length h) h' = h \<and> length h \<le> acc' \<and> acc' < length h'"
  using assms
  by (auto simp: accumulate_mean_st_def alloc_def take_iadd_sums take_iadd_counts
      length_iadd_sums length_iadd_counts Let_def split: option.splits obj.splits)

lemma accumulate_groupby_sum_st_frame:
  assumes "accumulate_groupby_sum_st h acc new gr ix = Some (h', acc')"
  shows "take (length h) h' = h \<and> length h \<le> acc' \<and> acc' < length h'"
  using assms
  by (auto simp: accumulate_groupby_sum_st_def alloc_def
      split: sum.splits option.splits obj.splits gacc.splits)

lemma accumulate_groupby_mean_st_frame:
  assumes "accumulate_groupby_mean_st h acc new gr ix = Some (h', acc', r)"
  shows "take (length h) h' = h \<and> length h \<le> acc' \<and> acc' < length h'"
  using assms
  by (auto simp: accumulate_groupby_mean_st_def alloc_def
      split: sum.splits option.splits obj.splits gacc.splits)

lemma rolling_accumulator_st_frame:
  assumes "rolling_accumulator_st h acc new w op = Some (h', acc', res')"
  shows "take (length h) h' = h \<and> length h \<le> acc' \<and> acc' < length h'"
  using assms
  by (auto simp: rolling_accumulator_st_def alloc_def
      split: sum.splits option.splits obj.splits window.splits if_splits)

lemma accumulate_sum_st_defined:
  "accumulate_sum_st h acc new = Some y \<Longrightarrow> acc < length h"
  by (auto simp: accumulate_sum_st_def lookup_def split: if_splits)

lemma accumulate_mean_st_defined:
  "accumulate_mean_st h acc new = Some y \<Longrightarrow> acc < length h"
  by (auto simp: accumulate_mean_st_def lookup_def split: if_splits)

lemma accumulate_groupby_sum_st_defined:
  "accumulate_groupby_sum_st h acc new gr ix = Some y \<Longrightarrow> acc < length h"
  by (auto simp: accumulate_groupby_sum_st_def alloc_def lookup_def nth_append
      split: sum.splits if_splits)

lemma accumulate_groupby_mean_st_defined:
  "accumulate_groupby_mean_st h acc new gr ix = Some y \<Longrightarrow> acc < length h"
  by (auto simp: accumulate_groupby_mean_st_def lookup_def split: sum.splits if_splits)

lemma rolling_accumulator_st_defined:
  "rolling_accumulator_st h acc new w op = Some y \<Longrightarrow> acc < length h"
  by (auto simp: rolling_accumulator_st_def lookup_def split: if_splits)

lemma state_intact:
  assumes "take (length h) h' = h \<and> length h \<le> acc' \<and> acc' < length h'"
    and "acc < length h"
  shows "take (length h) h' = h \<and> length h \<le> acc' \<and> acc' < length h'
       \<and> lookup h' acc = lookup h acc \<and> acc' \<noteq> acc"
  using assms lookup_take [of h h' acc] by auto

text \<open>
  Claim C10. Whenever a step (sum, mean, grouped sum, grouped mean, rolling) returns, the
  store it leaves begins with the store it was given, unchanged: no object that existed
  before the step was written to, so the state object that the caller passed in still
  holds the value it held. The state that the step returns is an object allocated during
  the step, different from the one passed in. The mean step does write, but into the copy
  it made first. And the steps do return: given a state object of the right kind (and,
  for the grouped and rolling steps, a batch on which the step over values returns), the
  step over the store returns a state object that holds the state computed over values.
\<close>

theorem step_returns_fresh_state:
  "(accumulate_sum_st h acc b = Some (h', acc') \<longrightarrow>
      take (length h) h' = h \<and> length h \<le> acc' \<and> acc' < length h'
      \<and> lookup h' acc = lookup h acc \<and> acc' \<noteq> acc)
   \<and> (accumulate_mean_st h acc b = Some (h', acc', r) \<longrightarrow>
      take (length h) h' = h \<and> length h \<le> acc' \<and> acc' < length h'
      \<and> lookup h' acc = lookup h acc \<and> acc' \<noteq> acc)
   \<and> (accumulate_groupby_sum_st h acc z gr ix = Some (h', acc') \<longrightarrow>
      take (length h) h' = h \<and> length h \<le> acc' \<and> acc' < length h'
      \<and> lookup h' acc = lookup h acc \<and> acc' \<noteq> acc)
   \<and> (accumulate_groupby_mean_st h acc z gr ix = Some (h', acc', q) \<longrightarrow>
      take (length h) h' = h \<and> length h \<le> acc' \<and> acc' < length h'
      \<and> lookup h' acc = lookup h acc \<and> acc' \<noteq> acc)
   \<and> (rolling_accumulator_st h acc nw w op = Some (h', acc', res) \<longrightarrow>
      take (length h) h' = h \<and> length h \<le> acc' \<and> acc' < length h'
      \<and> lookup h' acc = lookup h acc \<and> acc' \<noteq> acc)
   \<and> (lookup h acc = Some (TotalObj t) \<longrightarrow>
      (\<exists>k n. accumulate_sum_st h acc b = Some (k, n)
         \<and> lookup k n = Some (TotalObj (accumulate_sum t b))))
   \<and> (lookup h acc = Some (MeanObj m) \<longrightarrow>
      (\<exists>k n. accumulate_mean_st h acc b = Some (k, n, snd (accumulate_mean m b))
         \<and> lookup k n = Some (MeanObj (fst (accumulate_mean m b)))))
   \<and> (lookup h acc = Some (GroupObj a) \<and> accumulate_groupby_sum a z gr ix = Inr a' \<longrightarrow>
      (\<exists>k n. accumulate_groupby_sum_st h acc z gr ix = Some (k, n)
         \<and> lookup k n = Some (GroupObj a')))
   \<and> (lookup h acc = Some (TupleObj s c) \<and> lookup h s = Some (GroupObj a)
        \<and> lookup h c = Some (GroupObj d)
        \<and> accumulate_groupby_mean (a, d) z gr ix = Inr ((a', d'), q') \<longrightarrow>
      (\<exists>k n s' c'. accumulate_groupby_mean_st h acc z gr ix = Some (k, n, q')
         \<and> lookup k n = Some (TupleObj s' c')
         \<and> lookup k s' = Some (GroupObj a') \<and> lookup k c' = Some (GroupObj d')
         \<and> length h \<le> s' \<and> length h \<le> c'))
   \<and> (lookup h acc = Some (RowsObj old) \<and> lookup h nw = Some (RowsObj batch)
        \<and> rolling_accumulator old batch w op = Returned (kept, rolled) \<longrightarrow>
      (\<exists>k n e. rolling_accumulator_st h acc nw w op = Some (k, n, e)
         \<and> lookup k n = Some (RowsObj kept) \<and> lookup k e = Some (RolledObj rolled)))"
proof (intro conjI)
  show "accumulate_sum_st h acc b = Some (h', acc') \<longrightarrow>
      take (length h) h' = h \<and> length h \<le> acc' \<and> acc' < length h'
      \<and> lookup h' acc = lookup h acc \<and> acc' \<noteq> acc"
  proof
    assume a: "accumulate_sum_st h acc b = Some (h', acc')"
    show "take (length h) h' = h \<and> length h \<le> acc' \<and> acc' < length h'
        \<and> lookup h' acc = lookup h acc \<and> acc' \<noteq> acc"
      by (rule state_intact [OF accumulate_sum_st_frame [OF a] accumulate_sum_st_defined [OF a]])
  qed
  show "accumulate_mean_st h acc b = Some (h', acc', r) \<longrightarrow>
      take (length h) h' = h \<and> length h \<le> acc' \<and> acc' < length h'
      \<and> lookup h' acc = lookup h acc \<and> acc' \<noteq> acc"
  proof
    assume a: "accumulate_mean_st h acc b = Some (h', acc', r)"
    show "take (length h) h' = h \<and> length h \<le> acc' \<and> acc' < length h'
        \<and> lookup h' acc = lookup h acc \<and> acc' \<noteq> acc"
      by (rule state_intact [OF accumulate_mean_st_frame [OF a] accumulate_mean_st_defined [OF a]])
  qed
  show "accumulate_groupby_sum_st h acc z gr ix = Some (h', acc') \<longrightarrow>
      take (length h) h' = h \<and> length h \<le> acc' \<and> acc' < length h'
      \<and> lookup h' acc = lookup h acc \<and> acc' \<noteq> acc"
  proof
    assume a: "accumulate_groupby_sum_st h acc z gr ix = Some (h', acc')"
    show "take (length h) h' = h \<and> length h \<le> acc' \<and> acc' < length h'
        \<and> lookup h' acc = lookup h acc \<and> acc' \<noteq> acc"
      by (rule state_intact [OF accumulate_groupby_sum_st_frame [OF a]
            accumulate_groupby_sum_st_defined [OF a]])
  qed
  show "accumulate_groupby_mean_st h acc z gr ix = Some (h', acc', q) \<longrightarrow>
      take (length h) h' = h \<and> length h \<le> acc' \<and> acc' < length h'
      \<and> lookup h' acc = lookup h acc \<and> acc' \<noteq> acc"
  proof
    assume a: "accumulate_groupby_mean_st h acc z gr ix = Some (h', acc', q)"
    show "take (length h) h' = h \<and> length h \<le> acc' \<and> acc' < length h'
        \<and> lookup h' acc = lookup h acc \<and> acc' \<noteq> acc"
      by (rule state_intact [OF accumulate_groupby_mean_st_frame [OF a]
            accumulate_groupby_mean_st_defined [OF a]])
  qed
  show "rolling_accumulator_st h acc nw w op = Some (h', acc', res) \<longrightarrow>
      take (length h) h' = h \<and> length h \<le> acc' \<and> acc' < length h'
      \<and> lookup h' acc = lookup h acc \<and> acc' \<noteq> acc"
  proof
    assume a: "rolling_accumulator_st h acc nw w op = Some (h', acc', res)"
    show "take (length h) h' = h \<and> length h \<le> acc' \<and> acc' < length h'
        \<and> lookup h' acc = lookup h acc \<and> acc' \<noteq> acc"
      by (rule state_intact [OF rolling_accumulator_st_frame [OF a]
            rolling_accumulator_st_defined [OF a]])
  qed
  show "lookup h acc = Some (TotalObj t) \<longrightarrow>
      (\<exists>k n. accumulate_sum_st h acc b = Some (k, n)
         \<and> lookup k n = Some (TotalObj (accumulate_sum t b)))"
    by (simp add: accumulate_sum_st_value lookup_append_new)
  show "lookup h acc = Some (MeanObj m) \<longrightarrow>
      (\<exists>k n. accumulate_mean_st h acc b = Some (k, n, snd (accumulate_mean m b))
         \<and> lookup k n = Some (MeanObj (fst (accumulate_mean m b))))"
    by (simp add: accumulate_mean_st_value lookup_append_new)
  show "lookup h acc = Some (GroupObj a) \<and> accumulate_groupby_sum a z gr ix = Inr a' \<longrightarrow>
      (\<exists>k n. accumulate_groupby_sum_st h acc z gr ix = Some (k, n)
         \<and> lookup k n = Some (GroupObj a'))"
    using accumulate_groupby_sum_st_value [of h acc a z gr ix a'] by blast
  show "lookup h acc = Some (TupleObj s c) \<and> lookup h s = Some (GroupObj a)
        \<and> lookup h c = Some (GroupObj d)
        \<and> accumulate_groupby_mean (a, d) z gr ix = Inr ((a', d'), q') \<longrightarrow>
      (\<exists>k n s' c'. accumulate_groupby_mean_st h acc z gr ix = Some (k, n, q')
         \<and> lookup k n = Some (TupleObj s' c')
         \<and> lookup k s' = Some (GroupObj a') \<and> lookup k c' = Some (GroupObj d')
         \<and> length h \<le> s' \<and> length h \<le> c')"
    using accumulate_groupby_mean_st_value [of h acc s c a d z gr ix a' d' q'] by blast
  show "lookup h acc = Some (RowsObj old) \<and> lookup h nw = Some (RowsObj batch)
        \<and> rolling_accumulator old batch w op = Returned (kept, rolled) \<longrightarrow>
      (\<exists>k n e. rolling_accumulator_st h acc nw w op = Some (k, n, e)
         \<and> lookup k n = Some (RowsObj kept) \<and> lookup k e = Some (RolledObj rolled))"
    using rolling_accumulator_st_value [of h acc old nw batch w op kept rolled] by blast
qed

theorem step_returns_fresh_state_witness:
  "(\<exists>k n. accumulate_sum_st [TotalObj (Scalar 0) :: string obj] 0 [(''x'', [Some 2])] = Some (k, n)
      \<and> lookup k 0 = Some (TotalObj (Scalar 0)) \<and> n \<noteq> 0)
   \<and> (\<exists>k n r. accumulate_mean_st [MeanObj (mean_start [(''x'', [])]) :: string obj] 0
                 [(''x'', [Some 2])] = Some (k, n, r)
      \<and> lookup k 0 = Some (MeanObj (mean_start [(''x'', [])])) \<and> n \<noteq> 0
      \<and> lookup k n
          = Some (MeanObj (fst (accumulate_mean (mean_start [(''x'', [])]) [(''x'', [Some 2])]))))
   \<and> (\<exists>k n. accumulate_groupby_sum_st [GroupObj (Seed 0)] 0
                 (Zipped [(''v'', [Some 1])] [''a'']) None None = Some (k, n)
      \<and> lookup k 0 = Some (GroupObj (Seed 0)) \<and> n \<noteq> 0)
   \<and> (\<exists>k n r. accumulate_groupby_mean_st [GroupObj (Seed 0), GroupObj (Seed 0), TupleObj 0 1] 2
                 (Zipped [(''v'', [Some 1])] [''a'']) None None = Some (k, n, r)
      \<and> lookup k 2 = Some (TupleObj 0 1) \<and> n \<noteq> 2)
   \<and> (\<exists>k n e. rolling_accumulator_st [RowsObj [], RowsObj [(0, Some 1)] :: string obj] 0 1
                 (Rows 1) agg_sum = Some (k, n, e)
      \<and> lookup k 0 = Some (RowsObj []) \<and> n \<noteq> 0
      \<and> lookup k n = Some (RowsObj [(0, Some 1)]))"
proof -
  note A1 = step_returns_fresh_state [THEN conjunct1, rule_format]
  note A2 = step_returns_fresh_state [THEN conjunct2, THEN conjunct1, rule_format]
  note A3 = step_returns_fresh_state [THEN conjunct2, THEN conjunct2, THEN conjunct1,
      rule_format]
  note A4 = step_returns_fresh_state [THEN conjunct2, THEN conjunct2, THEN conjunct2,
      THEN conjunct1, rule_format]
  note A5 = step_returns_fresh_state [THEN conjunct2, THEN conjunct2, THEN conjunct2,
      THEN conjunct2, THEN conjunct1, rule_format]
  note B1 = step_returns_fresh_state [THEN conjunct2, THEN conjunct2, THEN conjunct2,
      THEN conjunct2, THEN conjunct2, THEN conjunct1, rule_format]
  note B2 = step_returns_fresh_state [THEN conjunct2, THEN conjunct2, THEN conjunct2,
      THEN conjunct2, THEN conjunct2, THEN conjunct2, THEN conjunct1, rule_format]
  note B3 = step_returns_fresh_state [THEN conjunct2, THEN conjunct2, THEN conjunct2,
      THEN conjunct2, THEN conjunct2, THEN conjunct2, THEN conjunct2, THEN conjunct1,
      rule_format]
  note B4 = step_returns_fresh_state [THEN conjunct2, THEN conjunct2, THEN conjunct2,
      THEN conjunct2, THEN conjunct2, THEN conjunct2, THEN conjunct2, THEN conjunct2,
      THEN conjunct1, rule_format]
  note B5 = step_returns_fresh_state [THEN conjunct2, THEN conjunct2, THEN conjunct2,
      THEN conjunct2, THEN conjunct2, THEN conjunct2, THEN conjunct2, THEN conjunct2,
      THEN conjunct2, rule_format]
  let ?b = "[(''x'', [Some (2::int)])]"
  let ?z = "Zipped [(''v'', [Some (1::int)])] [''a'']"
  let ?g = "([(''v'', [Some (1::int)])], [''a''])"
  have 1: "\<exists>k n. accumulate_sum_st [TotalObj (Scalar 0) :: string obj] 0 ?b = Some (k, n)
      \<and> lookup k 0 = Some (TotalObj (Scalar 0)) \<and> n \<noteq> 0"
  proof -
    let ?h = "[TotalObj (Scalar 0) :: string obj]"
    have l: "lookup ?h 0 = Some (TotalObj (Scalar 0))" by (simp add: lookup_def)
    from B1 [OF l] obtain k n where s: "accumulate_sum_st ?h 0 ?b = Some (k, n)" by blast
    from A1 [OF s] have "lookup k 0 = lookup ?h 0 \<and> n \<noteq> 0" by simp
    with s l show ?thesis by simp
  qed
  have 2: "\<exists>k n r. accumulate_mean_st [MeanObj (mean_start [(''x'', [])]) :: string obj] 0 ?b
        = Some (k, n, r)
      \<and> lookup k 0 = Some (MeanObj (mean_start [(''x'', [])])) \<and> n \<noteq> 0
      \<and> lookup k n = Some (MeanObj (fst (accumulate_mean (mean_start [(''x'', [])]) ?b)))"
  proof -
    let ?m = "mean_start [(''x'', [])]"
    let ?h = "[MeanObj ?m :: string obj]"
    have l: "lookup ?h 0 = Some (MeanObj ?m)" by (simp add: lookup_def)
    from B2 [OF l] obtain k n
      where s: "accumulate_mean_st ?h 0 ?b = Some (k, n, snd (accumulate_mean ?m ?b))"
        and v: "lookup k n = Some (MeanObj (fst (accumulate_mean ?m ?b)))" by blast
    from A2 [OF s] have "lookup k 0 = lookup ?h 0 \<and> n \<noteq> 0" by simp
    with s v l show ?thesis by simp
  qed
  have 3: "\<exists>k n. accumulate_groupby_sum_st [GroupObj (Seed 0)] 0 ?z None None = Some (k, n)
      \<and> lookup k 0 = Some (GroupObj (Seed 0)) \<and> n \<noteq> 0"
  proof -
    let ?h = "[GroupObj (Seed 0) :: string obj]"
    have l: "lookup ?h 0 = Some (GroupObj (Seed 0))
        \<and> accumulate_groupby_sum (Seed 0) ?z None None = Inr (Table (gb_sum ?g))"
      by (simp add: lookup_def accumulate_groupby_sum_def batch_groupby_def)
    from B3 [OF l] obtain k n
      where s: "accumulate_groupby_sum_st ?h 0 ?z None None = Some (k, n)" by blast
    from A3 [OF s] have "lookup k 0 = lookup ?h 0 \<and> n \<noteq> 0" by simp
    with s l show ?thesis by simp
  qed
  have 4: "\<exists>k n r. accumulate_groupby_mean_st
        [GroupObj (Seed 0), GroupObj (Seed 0), TupleObj 0 1] 2 ?z None None = Some (k, n, r)
      \<and> lookup k 2 = Some (TupleObj 0 1) \<and> n \<noteq> 2"
  proof -
    let ?h = "[GroupObj (Seed 0), GroupObj (Seed 0), TupleObj 0 1 :: string obj]"
    let ?q = "table_div (gb_sum ?g) (gb_count ?g)"
    have l2: "lookup ?h 2 = Some (TupleObj 0 1)" by (simp add: lookup_def)
    have l: "lookup ?h 2 = Some (TupleObj 0 1) \<and> lookup ?h 0 = Some (GroupObj (Seed 0))
        \<and> lookup ?h 1 = Some (GroupObj (Seed 0))
        \<and> accumulate_groupby_mean (Seed 0, Seed 0) ?z None None
            = Inr ((Table (gb_sum ?g), Table (gb_count ?g)), ?q)"
      by (simp add: lookup_def accumulate_groupby_mean_def batch_groupby_def)
    from B4 [OF l] obtain k n
      where s: "accumulate_groupby_mean_st ?h 2 ?z None None = Some (k, n, ?q)" by blast
    from A4 [OF s] have "lookup k 2 = lookup ?h 2 \<and> n \<noteq> 2" by simp
    with s l2 show ?thesis by simp
  qed
  have 5: "\<exists>k n e. rolling_accumulator_st [RowsObj [], RowsObj [(0, Some 1)] :: string obj] 0 1
        (Rows 1) agg_sum = Some (k, n, e)
      \<and> lookup k 0 = Some (RowsObj []) \<and> n \<noteq> 0
      \<and> lookup k n = Some (RowsObj [(0, Some 1)])"
  proof -
    let ?h = "[RowsObj [], RowsObj [(0, Some 1)] :: string obj]"
    have l0: "lookup ?h 0 = Some (RowsObj [])" by (simp add: lookup_def)
    have l: "lookup ?h 0 = Some (RowsObj []) \<and> lookup ?h 1 = Some (RowsObj [(0, Some 1)])
        \<and> rolling_accumulator [] [(0, Some 1)] (Rows 1) agg_sum
            = Returned ([(0, Some 1)], [(0, Fin 1)])"
      by (simp add: lookup_def rolling_accumulator_def pd_rolling_def default_min_periods_def
          roll_rows_def window_rows_def apply_agg_def present_def agg_sum_def iloc_from_def)
    from B5 [OF l] obtain k n e
      where s: "rolling_accumulator_st ?h 0 1 (Rows 1) agg_sum = Some (k, n, e)"
        and kn: "lookup k n = Some (RowsObj [(0, Some 1)])" by blast
    from A5 [OF s] have "lookup k 0 = lookup ?h 0 \<and> n \<noteq> 0" by simp
    with s kn l0 show ?thesis by simp
  qed
  from 1 2 3 4 5 show ?thesis by (intro conjI)
qed

end
